theory Spec2Isabelle
  imports Main "HOL-Library.Sublist" "HOL-Library.Multiset"
begin

section \<open>Python strings\<close>

text \<open>
  A text is a \<open>string\<close>; one \<open>char\<close> stands for one code point below 256. On that
  range \<open>str.lower\<close> maps A..Z and the capital letters U+00C0..U+00DE (U+00D7, the
  multiplication sign, apart) to the code point 32 above, which is the same bit pattern
  with bit 5 set, and leaves every other code point alone.
\<close>

fun lower_char :: "char \<Rightarrow> char" where
  "lower_char (Char b0 b1 b2 b3 b4 b5 b6 b7) =
     (let n = (of_char (Char b0 b1 b2 b3 b4 b5 b6 b7) :: nat)
      in if (65 \<le> n \<and> n \<le> 90) \<or> (192 \<le> n \<and> n \<le> 222 \<and> n \<noteq> 215)
         then Char b0 b1 b2 b3 b4 True b6 b7
         else Char b0 b1 b2 b3 b4 b5 b6 b7)"

definition lower :: "string \<Rightarrow> string" where
  "lower s = map lower_char s"

text \<open>\<open>str.isspace\<close> on the code points below 256, and \<open>str.strip()\<close>.\<close>

definition isspace :: "char \<Rightarrow> bool" where
  "isspace c = ((of_char c :: nat) \<in> set [9, 10, 11, 12, 13, 28, 29, 30, 31, 32, 133, 160])"

definition strip :: "string \<Rightarrow> string" where
  "strip s = rev (dropWhile isspace (rev (dropWhile isspace s)))"

text \<open>\<open>sub in s\<close>: \<open>sub\<close> occurs in \<open>s\<close> as a contiguous run.\<close>

fun str_in :: "string \<Rightarrow> string \<Rightarrow> bool" where
  "str_in sub [] = (sub = [])"
| "str_in sub (c # cs) = (prefix sub (c # cs) \<or> str_in sub cs)"

definition endswith :: "string \<Rightarrow> string \<Rightarrow> bool" where
  "endswith s suf = (length suf \<le> length s \<and> drop (length s - length suf) s = suf)"

text \<open>
  \<open>s.replace(old, new)\<close>: every occurrence of \<open>old\<close>, found from the left without
  overlap, becomes \<open>new\<close>. (For the empty \<open>old\<close> Python puts \<open>new\<close> around every
  character; the program never calls it so, and \<open>replace\<close> is the identity there.)
\<close>

fun replace :: "string \<Rightarrow> string \<Rightarrow> string \<Rightarrow> string" where
  "replace old new [] = []"
| "replace old new (c # cs) =
     (if old \<noteq> [] \<and> prefix old (c # cs)
      then new @ replace old new (drop (length old) (c # cs))
      else c # replace old new cs)"

text \<open>\<open>sep.join(parts)\<close>.\<close>

fun join :: "string \<Rightarrow> string list \<Rightarrow> string" where
  "join sep [] = []"
| "join sep [p] = p"
| "join sep (p # q # ps) = p @ sep @ join sep (q # ps)"

text \<open>The slice \<open>xs[-3:]\<close>: the last three elements, or all of a shorter list.\<close>

definition last3 :: "'a list \<Rightarrow> 'a list" where
  "last3 xs = drop (length xs - 3) xs"

section \<open>Timestamps\<close>

text \<open>
  \<open>datetime.fromisoformat\<close> belongs to the Python library, so the parser is a parameter:
  \<open>None\<close> is its ValueError. A \<open>datetime\<close> is naive (no offset) or aware; the integer
  is its position on the time line in microseconds, for an aware one after subtracting
  the offset, which is what the comparison of two aware values looks at. Comparing a
  naive with an aware value raises TypeError.
\<close>

datatype error = ValueError | TypeError | FileNotFoundError | OSError

datatype datetime = Naive int | Aware int

type_synonym iso_parser = "string \<Rightarrow> datetime option"

definition parse_timestamp :: "iso_parser \<Rightarrow> string \<Rightarrow> error + datetime" where
  "parse_timestamp fromisoformat ts =
     (let ts' = replace ''Z'' ''+00:00'' (strip ts)
      in case fromisoformat ts' of None \<Rightarrow> Inl ValueError | Some d \<Rightarrow> Inr d)"

fun dt_lt :: "datetime \<Rightarrow> datetime \<Rightarrow> error + bool" where
  "dt_lt (Naive a) (Naive b) = Inr (a < b)"
| "dt_lt (Aware a) (Aware b) = Inr (a < b)"
| "dt_lt (Naive a) (Aware b) = Inl TypeError"
| "dt_lt (Aware a) (Naive b) = Inl TypeError"

section \<open>Mood engine\<close>

definition HELP_KEYWORDS :: "string list" where
  "HELP_KEYWORDS = [''help'', ''where'', ''how'', ''quest'', ''please'', ''assist'', ''lost'']"

definition INSULT_KEYWORDS :: "string list" where
  "INSULT_KEYWORDS = [''stupid'', ''idiot'', ''useless'', ''dumb'', ''hate'', ''shut up'']"

text \<open>The moods are the strings of the source: neutral, friendly, angry.\<close>

definition update_mood :: "string \<Rightarrow> string \<Rightarrow> string \<times> string" where
  "update_mood text current_mood =
     (let text_lower = lower text
      in if list_ex (\<lambda>insult. str_in insult text_lower) INSULT_KEYWORDS
         then (''angry'', ''insult_detected'')
         else if list_ex (\<lambda>help_word. str_in help_word text_lower) HELP_KEYWORDS
                 \<or> endswith text_lower ''?''
         then (''friendly'', ''help_or_question'')
         else if current_mood = ''angry''
                 \<and> list_ex (\<lambda>word. str_in word text_lower) [''sorry'', ''please'', ''thanks'']
         then (''neutral'', ''deescalated'')
         else (current_mood, ''no_change''))"

section \<open>Reply generation\<close>

record chat_message =
  role :: string
  content :: string

definition build_messages :: "string \<Rightarrow> string \<Rightarrow> string list \<Rightarrow> string \<Rightarrow> chat_message list" where
  "build_messages npc_name mood history current_text =
     (let system_prompt =
            ''You are '' @ npc_name @ '', a game NPC. Current mood: '' @ mood @ ''.'' @ [CHR 0x0A]
            @ ''    Keep replies short (1-2 sentences). Be helpful if friendly, concise if neutral, curt if angry.'';
          messages = [\<lparr>role = ''system'', content = system_prompt\<rparr>];
          messages =
            (if history \<noteq> []
             then messages @
                  [\<lparr>role = ''user'',
                    content = ''Previous messages:'' @ [CHR 0x0A]
                              @ join [CHR 0x0A] (map (\<lambda>msg. ''- '' @ msg) history)\<rparr>]
             else messages)
      in messages @ [\<lparr>role = ''user'', content = current_text\<rparr>])"

definition rule_based_reply :: "string \<Rightarrow> string \<Rightarrow> string" where
  "rule_based_reply mood text =
     (let text_lower = lower text
      in if mood = ''angry''
         then (if str_in ''sorry'' text_lower
               then ''Fine. Head east to the mill.''
               else ''Make it quick. East road leads to the mill.'')
         else if mood = ''friendly''
         then (if list_ex (\<lambda>word. str_in word text_lower) [''where'', ''go'', ''quest'']
               then ''Follow the east road to the mill. The elder can help you!''
               else ''How can I help you today?'')
         else if list_ex (\<lambda>word. str_in word text_lower) [''where'', ''go'', ''quest'']
         then ''East road goes to the mill. Village center is by the well.''
         else ''What do you need? I can offer directions or information.'')"

text \<open>
  The remote service is outside the program. One call of
  \<open>client.chat.completions.create\<close> followed by \<open>response.choices[0].message.content\<close>
  is a function of the model name and the messages (max_tokens and temperature are
  constants); \<open>None\<close> is any exception raised inside the \<open>try\<close> block, all of which
  \<open>except Exception\<close> catches. The module-level \<open>OPENAI_AVAILABLE and client\<close> is an
  optional service: \<open>None\<close> when the import failed.
\<close>

type_synonym completion = "string \<Rightarrow> chat_message list \<Rightarrow> string option"

definition generate_reply ::
  "completion option \<Rightarrow> string \<Rightarrow> string \<Rightarrow> string list \<Rightarrow> string \<Rightarrow> string \<Rightarrow> string \<times> string" where
  "generate_reply client npc_name mood history text model =
     (case client of
        Some create \<Rightarrow>
          (case create model (build_messages npc_name mood history text) of
             Some reply_content \<Rightarrow> (strip reply_content, ''openai:'' @ model)
           | None \<Rightarrow> (rule_based_reply mood text, ''fallback''))
      | None \<Rightarrow> (rule_based_reply mood text, ''fallback''))"

section \<open>Messages, player state, log entries\<close>

datatype pid = PInt int | PStr string

record message =
  player_id :: pid
  msg_text :: string
  timestamp :: string

record PlayerState =
  mood :: string
  last_messages :: "string list"

definition new_PlayerState :: PlayerState where
  "new_PlayerState = \<lparr>mood = ''neutral'', last_messages = []\<rparr>"

text \<open>
  A log entry is the dict handed to \<open>json.dumps\<close>: keys in insertion order, each with
  its JSON value.
\<close>

datatype json = JInt int | JStr string | JArr "json list"

type_synonym log_entry = "(string \<times> json) list"

fun json_of_pid :: "pid \<Rightarrow> json" where
  "json_of_pid (PInt n) = JInt n"
| "json_of_pid (PStr s) = JStr s"

text \<open>
  What the run can be seen to do: the lines printed on the console and the lines of each
  file, by path. The state of the file system is not in the program's hands, so the
  world also says for which paths the file system refuses to create the directory or to
  open the file for writing (the path names a directory, a permission is missing);
  Python then raises an OSError. Directories are not kept, and a line written to an open
  file or printed is taken to arrive.
\<close>

record world =
  console :: "log_entry list"
  files :: "string \<rightharpoonup> log_entry list"
  denied :: "string \<Rightarrow> bool"

section \<open>Sorting the batch\<close>

text \<open>
  \<open>messages.sort(key=...)\<close> first computes the key of every message, in order, and a
  key that raises aborts the sort. It then sorts stably, comparing keys with \<open><\<close>
  only; a comparison that raises aborts it. The stable sort is insertion from the right:
  an element goes in front of the first one that is not smaller than it.
\<close>

fun keys_of :: "iso_parser \<Rightarrow> message list \<Rightarrow> error + (datetime \<times> message) list" where
  "keys_of p [] = Inr []"
| "keys_of p (m # ms) =
     (case parse_timestamp p (timestamp m) of
        Inl e \<Rightarrow> Inl e
      | Inr k \<Rightarrow> (case keys_of p ms of Inl e \<Rightarrow> Inl e | Inr ks \<Rightarrow> Inr ((k, m) # ks)))"

fun insert_keyed :: "datetime \<times> 'a \<Rightarrow> (datetime \<times> 'a) list \<Rightarrow> error + (datetime \<times> 'a) list" where
  "insert_keyed x [] = Inr [x]"
| "insert_keyed x (y # ys) =
     (case dt_lt (fst y) (fst x) of
        Inl e \<Rightarrow> Inl e
      | Inr True \<Rightarrow> (case insert_keyed x ys of Inl e \<Rightarrow> Inl e | Inr zs \<Rightarrow> Inr (y # zs))
      | Inr False \<Rightarrow> Inr (x # y # ys))"

fun sort_keyed :: "(datetime \<times> 'a) list \<Rightarrow> error + (datetime \<times> 'a) list" where
  "sort_keyed [] = Inr []"
| "sort_keyed (x # xs) =
     (case sort_keyed xs of Inl e \<Rightarrow> Inl e | Inr ys \<Rightarrow> insert_keyed x ys)"

definition sort_messages :: "iso_parser \<Rightarrow> message list \<Rightarrow> error + message list" where
  "sort_messages p ms =
     (case keys_of p ms of
        Inl e \<Rightarrow> Inl e
      | Inr ks \<Rightarrow> (case sort_keyed ks of Inl e \<Rightarrow> Inl e | Inr ss \<Rightarrow> Inr (map snd ss)))"

section \<open>The pipeline\<close>

text \<open>
  The body of the \<open>for\<close> loop, statement by statement. \<open>i\<close> counts the messages
  processed before this one: the service may answer the same request differently at
  each call, so the client of the \<open>i\<close>-th call is \<open>client i\<close>.
\<close>

definition process_one ::
  "(nat \<Rightarrow> completion) option \<Rightarrow> string \<Rightarrow> string \<Rightarrow> string \<Rightarrow> nat \<Rightarrow> message
     \<Rightarrow> (pid \<rightharpoonup> PlayerState) \<times> world \<Rightarrow> (pid \<rightharpoonup> PlayerState) \<times> world" where
  "process_one client log_file model npc_name i msg sw =
     (let player_states = fst sw; w = snd sw;
          player_states =
            (if player_states (player_id msg) = None
             then player_states(player_id msg \<mapsto> new_PlayerState)
             else player_states);
          state = the (player_states (player_id msg));
          context = last3 (last_messages state);
          (new_mood, reason) = update_mood (msg_text msg) (mood state);
          state = state\<lparr>mood := new_mood\<rparr>;
          (reply, source) =
            generate_reply (map_option (\<lambda>c. c i) client) npc_name (mood state) context
              (msg_text msg) model;
          state = state\<lparr>last_messages := last_messages state @ [msg_text msg]\<rparr>;
          state =
            (if length (last_messages state) > 3
             then state\<lparr>last_messages := last3 (last_messages state)\<rparr>
             else state);
          log_entry =
            [(''player_id'', json_of_pid (player_id msg)),
             (''timestamp'', JStr (timestamp msg)),
             (''message_text'', JStr (msg_text msg)),
             (''npc_reply'', JStr reply),
             (''state_used'', JArr (map JStr context)),
             (''npc_mood'', JStr (mood state)),
             (''mood_reason'', JStr reason),
             (''model_source'', JStr source),
             (''npc_name'', JStr npc_name)];
          w = w\<lparr>console := console w @ [log_entry]\<rparr>;
          w =
            (if log_file \<noteq> []
             then w\<lparr>files := (files w)(log_file \<mapsto> (case files w log_file of
                                                       None \<Rightarrow> [log_entry]
                                                     | Some ls \<Rightarrow> ls @ [log_entry]))\<rparr>
             else w)
      in (player_states(player_id msg \<mapsto> state), w))"

fun process_loop ::
  "(nat \<Rightarrow> completion) option \<Rightarrow> string \<Rightarrow> string \<Rightarrow> string \<Rightarrow> nat \<Rightarrow> message list
     \<Rightarrow> (pid \<rightharpoonup> PlayerState) \<times> world \<Rightarrow> (pid \<rightharpoonup> PlayerState) \<times> world" where
  "process_loop client log_file model npc_name i [] sw = sw"
| "process_loop client log_file model npc_name i (msg # msgs) sw =
     process_loop client log_file model npc_name (Suc i) msgs
       (process_one client log_file model npc_name i msg sw)"

text \<open>
  \<open>os.path.dirname\<close> (POSIX): the part of the path up to its last slash, without the
  slashes at its end unless it consists of slashes only.
\<close>

definition dirname :: "string \<Rightarrow> string" where
  "dirname p =
     (let head = rev (dropWhile (\<lambda>c. c \<noteq> CHR ''/'') (rev p))
      in if head \<noteq> [] \<and> \<not> list_all (\<lambda>c. c = CHR ''/'') head
         then rev (dropWhile (\<lambda>c. c = CHR ''/'') (rev head))
         else head)"

text \<open>
  The block that prepares the log file. With a non-empty \<open>log_file\<close> it calls
  \<open>os.makedirs(os.path.dirname(log_file), exist_ok=True)\<close>, which raises
  FileNotFoundError when the path has no directory part (the directory name is then
  the empty string), and opens the file for writing, which empties it. With an empty
  \<open>log_file\<close> there is no log handle and nothing is touched.
\<close>

definition open_log :: "string \<Rightarrow> world \<Rightarrow> error + world" where
  "open_log log_file w =
     (if log_file \<noteq> []
      then if dirname log_file = [] then Inl FileNotFoundError
           else if denied w log_file then Inl OSError
           else Inr (w\<lparr>files := (files w)(log_file \<mapsto> [])\<rparr>)
      else Inr w)"

text \<open>
  \<open>process_messages\<close> on the list that \<open>json.load\<close> returned. The sort comes first;
  when it raises, nothing after it runs. Then the log file is prepared; when that
  raises, no message is processed. Then the loop starts from no player states.
\<close>

definition process_messages ::
  "iso_parser \<Rightarrow> (nat \<Rightarrow> completion) option \<Rightarrow> message list \<Rightarrow> string \<Rightarrow> string \<Rightarrow> string
     \<Rightarrow> world \<Rightarrow> error option \<times> world" where
  "process_messages fromisoformat client messages log_file model npc_name w =
     (case sort_messages fromisoformat messages of
        Inl e \<Rightarrow> (Some e, w)
      | Inr sorted_messages \<Rightarrow>
          (case open_log log_file w of
             Inl e \<Rightarrow> (Some e, w)
           | Inr w \<Rightarrow>
               (None, snd (process_loop client log_file model npc_name 0 sorted_messages
                             (Map.empty, w)))))"

section \<open>Instants of messages\<close>

text \<open>
  Vocabulary for the statements below: whether the timestamp of a message parses, the
  instant it parses to, the position of an instant on the time line, and whether the
  instants of a batch can be compared with each other, which is so when they are all
  aware or all naive.
\<close>

fun timeline :: "datetime \<Rightarrow> int" where
  "timeline (Naive a) = a"
| "timeline (Aware a) = a"

fun aware :: "datetime \<Rightarrow> bool" where
  "aware (Naive a) = False"
| "aware (Aware a) = True"

definition parses :: "iso_parser \<Rightarrow> message \<Rightarrow> bool" where
  "parses p m = (\<not> isl (parse_timestamp p (timestamp m)))"

definition instant :: "iso_parser \<Rightarrow> message \<Rightarrow> datetime" where
  "instant p m = projr (parse_timestamp p (timestamp m))"

definition uniform :: "datetime list \<Rightarrow> bool" where
  "uniform ds = (list_all aware ds \<or> list_all (\<lambda>d. \<not> aware d) ds)"

definition comparable :: "iso_parser \<Rightarrow> message list \<Rightarrow> bool" where
  "comparable p ms = uniform (map (instant p) ms)"

text \<open>
  The session of a player as the loop body sees it (the stored state, or a fresh one for
  a player not seen before), the texts a player sent in a list of messages, the entries
  a run added to the console, and the three fields of an entry that are copied from the
  message.
\<close>

definition session :: "(pid \<rightharpoonup> PlayerState) \<Rightarrow> pid \<Rightarrow> PlayerState" where
  "session player_states p = (case player_states p of None \<Rightarrow> new_PlayerState | Some s \<Rightarrow> s)"

definition texts_of :: "pid \<Rightarrow> message list \<Rightarrow> string list" where
  "texts_of p ms = map msg_text (filter (\<lambda>m. player_id m = p) ms)"

definition emitted :: "world \<Rightarrow> world \<Rightarrow> log_entry list" where
  "emitted w w' = drop (length (console w)) (console w')"

definition input_fields :: "message \<Rightarrow> log_entry" where
  "input_fields m =
     [(''player_id'', json_of_pid (player_id m)),
      (''timestamp'', JStr (timestamp m)),
      (''message_text'', JStr (msg_text m))]"

section \<open>The specification's wording, for comparison\<close>

text \<open>
  The four rules of the mood engine as the specification lists them: a keyword set is
  matched case-insensitively as a substring; \<open>rule_guard\<close> is the condition of a rule
  on its own, \<open>fires\<close> adds that no earlier rule applies (first match wins), and
  \<open>rule_result\<close> is what the rule yields.
\<close>

datatype rule = InsultRule | HelpOrQuestionRule | DeescalationRule | NoChangeRule

definition mentions :: "string list \<Rightarrow> string \<Rightarrow> bool" where
  "mentions keywords text = (\<exists>k \<in> set keywords. sublist k (lower text))"

fun rule_guard :: "rule \<Rightarrow> string \<Rightarrow> string \<Rightarrow> bool" where
  "rule_guard InsultRule m t = mentions INSULT_KEYWORDS t"
| "rule_guard HelpOrQuestionRule m t = (mentions HELP_KEYWORDS t \<or> (t \<noteq> [] \<and> last t = CHR ''?''))"
| "rule_guard DeescalationRule m t = (m = ''angry'' \<and> mentions [''sorry'', ''please'', ''thanks''] t)"
| "rule_guard NoChangeRule m t = True"

fun fires :: "rule \<Rightarrow> string \<Rightarrow> string \<Rightarrow> bool" where
  "fires InsultRule m t = rule_guard InsultRule m t"
| "fires HelpOrQuestionRule m t =
     (\<not> rule_guard InsultRule m t \<and> rule_guard HelpOrQuestionRule m t)"
| "fires DeescalationRule m t =
     (\<not> rule_guard InsultRule m t \<and> \<not> rule_guard HelpOrQuestionRule m t
      \<and> rule_guard DeescalationRule m t)"
| "fires NoChangeRule m t =
     (\<not> rule_guard InsultRule m t \<and> \<not> rule_guard HelpOrQuestionRule m t
      \<and> \<not> rule_guard DeescalationRule m t)"

fun rule_result :: "rule \<Rightarrow> string \<Rightarrow> string \<times> string" where
  "rule_result InsultRule m = (''angry'', ''insult_detected'')"
| "rule_result HelpOrQuestionRule m = (''friendly'', ''help_or_question'')"
| "rule_result DeescalationRule m = (''neutral'', ''deescalated'')"
| "rule_result NoChangeRule m = (m, ''no_change'')"

text \<open>
  The normalisation of a raw timestamp as the specification words it: trim the
  surrounding whitespace, then turn a trailing \<open>Z\<close> into \<open>+00:00\<close>.
\<close>

definition spec_normalize :: "string \<Rightarrow> string" where
  "spec_normalize raw =
     (let s = strip raw in if endswith s ''Z'' then butlast s @ ''+00:00'' else s)"

section \<open>Example inputs\<close>

text \<open>
  A parser for the examples: it knows the strings below, with the value
  \<open>datetime.fromisoformat\<close> gives them (microseconds since 1970-01-01T00:00:00 UTC;
  Python also takes an offset with seconds, \<open>+00:00:30\<close>), and rejects every other
  string.
\<close>

definition demo_fromisoformat :: iso_parser where
  "demo_fromisoformat =
     map_of [(''2024-01-01T10:00:01+00:00'', Aware 1704103201000000),
             (''2024-01-01T10:00:02+00:00'', Aware 1704103202000000),
             (''2024-01-01T12:00:00+00:00'', Aware 1704110400000000),
             (''2024-01-01T12:00:00+00:00:30'', Aware 1704110370000000),
             (''2024-01-01T10:00:00'', Naive 1704103200000000)]"

definition demo_world :: world where
  "demo_world = \<lparr>console = [], files = Map.empty, denied = (\<lambda>path. False)\<rparr>"

text \<open>A service that answers every request with three spaces.\<close>

definition demo_blank_service :: completion where
  "demo_blank_service model messages = Some ''   ''"

text \<open>
  Three batches: one with timestamps out of order and a tie, in which player 2 sends the
  same text twice; one in which a player sends four messages; and the three messages of
  the end-to-end scenarios of the specification.
\<close>

definition demo_batch :: "message list" where
  "demo_batch =
     [\<lparr>player_id = PInt 1, msg_text = ''You are useless'', timestamp = ''2024-01-01T10:00:02Z''\<rparr>,
      \<lparr>player_id = PInt 2, msg_text = ''hi'', timestamp = '' 2024-01-01T10:00:01Z''\<rparr>,
      \<lparr>player_id = PInt 2, msg_text = ''hi'', timestamp = ''2024-01-01T10:00:01+00:00''\<rparr>]"

definition demo_chat :: "message list" where
  "demo_chat =
     [\<lparr>player_id = PInt 7, msg_text = ''one'', timestamp = ''2024-01-01T10:00:00''\<rparr>,
      \<lparr>player_id = PInt 7, msg_text = ''two'', timestamp = ''2024-01-01T10:00:00''\<rparr>,
      \<lparr>player_id = PInt 7, msg_text = ''three'', timestamp = ''2024-01-01T10:00:00''\<rparr>,
      \<lparr>player_id = PInt 7, msg_text = ''four'', timestamp = ''2024-01-01T10:00:00''\<rparr>]"

definition demo_talk :: "message list" where
  "demo_talk =
     [\<lparr>player_id = PInt 1, msg_text = ''Where do I find the mill?'', timestamp = ''2024-01-01T10:00:00''\<rparr>,
      \<lparr>player_id = PInt 1, msg_text = ''You are so stupid and useless'', timestamp = ''2024-01-01T10:00:00''\<rparr>,
      \<lparr>player_id = PInt 1, msg_text = ''Sorry, please help'', timestamp = ''2024-01-01T10:00:00''\<rparr>]"

section \<open>Facts about the string functions\<close>

lemma str_in_sublist: "str_in sub s = sublist sub s"
  by (induction s) (auto simp: sublist_Cons_right)

lemma list_ex_str_in_mentions:
  "list_ex (\<lambda>k. str_in k (lower t)) ks = mentions ks t"
  by (simp add: mentions_def list_ex_iff str_in_sublist)

lemma lower_char_qmark: "(lower_char c = CHR ''?'') = (c = CHR ''?'')"
  by (cases c) (auto simp: Let_def)

lemma endswith_lower_qmark: "endswith (lower t) ''?'' = (t \<noteq> [] \<and> last t = CHR ''?'')"
proof (cases t rule: rev_cases)
  case Nil
  then show ?thesis by (simp add: endswith_def lower_def)
next
  case (snoc ys y)
  then show ?thesis by (simp add: endswith_def lower_def lower_char_qmark)
qed

section \<open>The mood engine\<close>

lemma update_mood_rules:
  "update_mood t m =
     (if rule_guard InsultRule m t then rule_result InsultRule m
      else if rule_guard HelpOrQuestionRule m t then rule_result HelpOrQuestionRule m
      else if rule_guard DeescalationRule m t then rule_result DeescalationRule m
      else rule_result NoChangeRule m)"
  by (simp add: update_mood_def Let_def list_ex_str_in_mentions endswith_lower_qmark)

lemma fires_unique: "fires r m t \<Longrightarrow> fires r' m t \<Longrightarrow> r = r'"
  by (cases r; cases r'; simp)

lemma fires_some: "\<exists>r. fires r m t"
proof (cases "rule_guard InsultRule m t")
  case True
  then have "fires InsultRule m t" by simp
  then show ?thesis ..
next
  case ni: False
  show ?thesis
  proof (cases "rule_guard HelpOrQuestionRule m t")
    case True
    with ni have "fires HelpOrQuestionRule m t" by simp
    then show ?thesis ..
  next
    case nh: False
    show ?thesis
    proof (cases "rule_guard DeescalationRule m t")
      case True
      with ni nh have "fires DeescalationRule m t" by simp
      then show ?thesis ..
    next
      case False
      with ni nh have "fires NoChangeRule m t" by simp
      then show ?thesis ..
    qed
  qed
qed

lemma fires_result: "fires r m t \<Longrightarrow> update_mood t m = rule_result r m"
  by (cases r) (simp_all add: update_mood_rules)

text \<open>
  C1, as the code has it. With the mood angry, the message \<open>Sorry, please help\<close> holds
  no insult keyword, but it holds the help keywords \<open>help\<close> and \<open>please\<close>, so the
  help-or-question rule, which comes before de-escalation, decides: the mood goes from
  angry to friendly with reason \<open>help_or_question\<close>.
\<close>

theorem sorry_please_help_friendly:
  "\<not> list_ex (\<lambda>insult. str_in insult (lower ''Sorry, please help'')) INSULT_KEYWORDS
   \<and> list_ex (\<lambda>help_word. str_in help_word (lower ''Sorry, please help'')) HELP_KEYWORDS
   \<and> update_mood ''Sorry, please help'' ''angry'' = (''friendly'', ''help_or_question'')"
  by (simp add: update_mood_def lower_def INSULT_KEYWORDS_def HELP_KEYWORDS_def)

text \<open>
  C1, as the claim states it, fails: the result for \<open>Sorry, please help\<close> from the mood
  angry is not neutral with reason \<open>deescalated\<close>.
\<close>

theorem sorry_please_help_not_deescalated:
  "update_mood ''Sorry, please help'' ''angry'' \<noteq> (''neutral'', ''deescalated'')"
  by (simp add: update_mood_def lower_def INSULT_KEYWORDS_def HELP_KEYWORDS_def)

text \<open>
  C2. \<open>update_mood\<close> is a total function of the text and the mood. For every pair exactly
  one of the four rules fires under the precedence insult, help-or-question,
  de-escalation, no-change, and the result is that rule's. In particular a text that
  holds an insult keyword gives angry with reason \<open>insult_detected\<close>, whatever else it
  holds and whatever the mood.
\<close>

theorem update_mood_one_rule:
  "(\<exists>r. fires r m t \<and> (\<forall>r'. fires r' m t \<longrightarrow> r' = r) \<and> update_mood t m = rule_result r m)
   \<and> (mentions INSULT_KEYWORDS t \<longrightarrow> update_mood t m = (''angry'', ''insult_detected''))"
proof
  obtain r where r: "fires r m t" using fires_some by blast
  have "\<forall>r'. fires r' m t \<longrightarrow> r' = r" using r fires_unique by blast
  moreover have "update_mood t m = rule_result r m" using r by (rule fires_result)
  ultimately show "\<exists>r. fires r m t \<and> (\<forall>r'. fires r' m t \<longrightarrow> r' = r)
      \<and> update_mood t m = rule_result r m"
    using r by blast
next
  show "mentions INSULT_KEYWORDS t \<longrightarrow> update_mood t m = (''angry'', ''insult_detected'')"
    by (simp add: update_mood_rules)
qed

theorem update_mood_one_rule_witness:
  "mentions INSULT_KEYWORDS ''Sorry, but you are an IDIOT. Thanks''
   \<and> mentions [''sorry'', ''please'', ''thanks''] ''Sorry, but you are an IDIOT. Thanks''
   \<and> fires InsultRule ''angry'' ''Sorry, but you are an IDIOT. Thanks''
   \<and> update_mood ''Sorry, but you are an IDIOT. Thanks'' ''angry''
       = (''angry'', ''insult_detected'')"
proof -
  have h: "mentions INSULT_KEYWORDS ''Sorry, but you are an IDIOT. Thanks''"
    by (simp add: mentions_def INSULT_KEYWORDS_def lower_def sublist_Cons_right)
  have d: "mentions [''sorry'', ''please'', ''thanks''] ''Sorry, but you are an IDIOT. Thanks''"
    by (simp add: mentions_def lower_def sublist_Cons_right)
  from h d
    update_mood_one_rule [of "''angry''" "''Sorry, but you are an IDIOT. Thanks''"]
  show ?thesis by simp
qed

text \<open>
  C10. For a fixed text the mood engine is idempotent in the mood: when
  \<open>update_mood t m\<close> returns the mood \<open>m'\<close>, \<open>update_mood t m'\<close> returns \<open>m'\<close> again.
\<close>

theorem update_mood_idempotent:
  "fst (update_mood t m) = m' \<Longrightarrow> fst (update_mood t m') = m'"
  by (auto simp: update_mood_def Let_def split: if_splits)

theorem update_mood_idempotent_witness:
  "fst (update_mood ''thanks a lot'' ''angry'') = ''neutral''
   \<and> fst (update_mood ''thanks a lot'' ''neutral'') = ''neutral''"
proof -
  have h: "fst (update_mood ''thanks a lot'' ''angry'') = ''neutral''"
    by (simp add: update_mood_def lower_def INSULT_KEYWORDS_def HELP_KEYWORDS_def endswith_def)
  from h update_mood_idempotent [OF h] show ?thesis by simp
qed

section \<open>Reply generation\<close>

lemma rule_based_reply_nonempty: "rule_based_reply md text \<noteq> []"
  by (simp add: rule_based_reply_def Let_def)

lemma generate_reply_unavailable:
  "generate_reply None npc_name md history text model = (rule_based_reply md text, ''fallback'')"
  by (simp add: generate_reply_def)

lemma generate_reply_failure:
  "create model (build_messages npc_name md history text) = None \<Longrightarrow>
   generate_reply (Some create) npc_name md history text model
     = (rule_based_reply md text, ''fallback'')"
  by (simp add: generate_reply_def)

lemma generate_reply_success:
  "create model (build_messages npc_name md history text) = Some reply \<Longrightarrow>
   generate_reply (Some create) npc_name md history text model
     = (strip reply, ''openai:'' @ model)"
  by (simp add: generate_reply_def)

text \<open>
  C7, as the code has it. The remote service is tried first whenever there is one: when
  the call returns an answer, whatever it is, the reply is that answer trimmed (an empty
  or blank answer gives the empty reply) and the tag is \<open>openai:\<close> followed by the
  model, which is never the tag \<open>fallback\<close>. When there is no service, or the call
  raises, the reply is the rule-based one with the tag \<open>fallback\<close>. The rule-based
  reply is a total function of the mood and the text and is never empty.
\<close>

theorem generate_reply_contract:
  "(client = None
      \<or> (\<exists>create. client = Some create
            \<and> create model (build_messages npc_name md history text) = None)
      \<longrightarrow> generate_reply client npc_name md history text model
            = (rule_based_reply md text, ''fallback''))
   \<and> (\<forall>create reply. client = Some create
            \<and> create model (build_messages npc_name md history text) = Some reply
      \<longrightarrow> generate_reply client npc_name md history text model
            = (strip reply, ''openai:'' @ model)
          \<and> ''openai:'' @ model \<noteq> ''fallback'')
   \<and> rule_based_reply md text \<noteq> []"
proof (intro conjI impI allI)
  assume "client = None
      \<or> (\<exists>create. client = Some create
            \<and> create model (build_messages npc_name md history text) = None)"
  then show "generate_reply client npc_name md history text model
      = (rule_based_reply md text, ''fallback'')"
  proof
    assume "client = None"
    then show ?thesis by (simp add: generate_reply_unavailable)
  next
    assume "\<exists>create. client = Some create
        \<and> create model (build_messages npc_name md history text) = None"
    then obtain create where "client = Some create"
      and "create model (build_messages npc_name md history text) = None" by blast
    then show ?thesis by (simp add: generate_reply_failure)
  qed
next
  fix create reply
  assume "client = Some create
      \<and> create model (build_messages npc_name md history text) = Some reply"
  then show "generate_reply client npc_name md history text model
      = (strip reply, ''openai:'' @ model)"
    by (simp add: generate_reply_success)
next
  show "''openai:'' @ model \<noteq> ''fallback''" by simp
next
  show "rule_based_reply md text \<noteq> []" by (rule rule_based_reply_nonempty)
qed

theorem generate_reply_contract_witness:
  "generate_reply (Some (\<lambda>model messages. None)) ''Elya the Ranger'' ''angry'' [''hi'']
      ''Sorry'' ''gpt-3.5-turbo''
     = (''Fine. Head east to the mill.'', ''fallback'')
   \<and> generate_reply (Some (\<lambda>model messages. Some ''  Go east.  '')) ''Elya the Ranger''
      ''angry'' [''hi''] ''Sorry'' ''gpt-3.5-turbo''
     = (''Go east.'', ''openai:gpt-3.5-turbo'')"
proof -
  have r: "rule_based_reply ''angry'' ''Sorry'' = ''Fine. Head east to the mill.''"
    by (simp add: rule_based_reply_def lower_def)
  have s: "strip ''  Go east.  '' = ''Go east.''"
    by (simp add: strip_def isspace_def)
  from generate_reply_contract [of "Some (\<lambda>model messages. None)" "''gpt-3.5-turbo''"
      "''Elya the Ranger''" "''angry''" "[''hi'']" "''Sorry''"]
    generate_reply_contract [of "Some (\<lambda>model messages. Some ''  Go east.  '')"
      "''gpt-3.5-turbo''" "''Elya the Ranger''" "''angry''" "[''hi'']" "''Sorry''"]
  show ?thesis by (simp add: r s)
qed

text \<open>
  C7, as the claim states it, fails: an empty response is a failure of the remote
  service for the specification, yet the code does not fall back on it. A service that
  answers with blanks gives the empty reply under the tag of the model, not the
  rule-based reply under \<open>fallback\<close>.
\<close>

theorem blank_answer_not_fallback:
  "generate_reply (Some demo_blank_service) ''Elya the Ranger'' ''neutral'' [] ''hello''
      ''gpt-3.5-turbo'' = ([], ''openai:gpt-3.5-turbo'')
   \<and> generate_reply (Some demo_blank_service) ''Elya the Ranger'' ''neutral'' [] ''hello''
      ''gpt-3.5-turbo'' \<noteq> (rule_based_reply ''neutral'' ''hello'', ''fallback'')"
  by (simp add: generate_reply_def demo_blank_service_def strip_def isspace_def)

section \<open>Sorting the batch\<close>

lemma dt_lt_same: "aware a = aware b \<Longrightarrow> dt_lt a b = Inr (timeline a < timeline b)"
  by (cases a; cases b) simp_all

lemma dt_lt_diff: "aware a \<noteq> aware b \<Longrightarrow> dt_lt a b = Inl TypeError"
  by (cases a; cases b) simp_all

lemma uniform_Cons:
  "uniform (d # ds) = (uniform ds \<and> (\<forall>e \<in> set ds. aware e = aware d))"
  by (cases "aware d") (auto simp: uniform_def list_all_iff)

lemma insert_keyed_same:
  "\<forall>y \<in> set ys. aware (fst y) = aware (fst x) \<Longrightarrow>
   insert_keyed x ys = Inr (insort_key (\<lambda>a. timeline (fst a)) x ys)"
proof (induction ys)
  case Nil
  then show ?case by simp
next
  case (Cons y ys)
  from Cons.prems have "aware (fst y) = aware (fst x)" by simp
  then have lt: "dt_lt (fst y) (fst x) = Inr (timeline (fst y) < timeline (fst x))"
    by (rule dt_lt_same)
  from Cons.prems have "\<forall>y \<in> set ys. aware (fst y) = aware (fst x)" by simp
  then have ih: "insert_keyed x ys = Inr (insort_key (\<lambda>a. timeline (fst a)) x ys)"
    by (rule Cons.IH)
  show ?case
  proof (cases "timeline (fst y) < timeline (fst x)")
    case True
    then show ?thesis using lt ih by simp
  next
    case False
    then show ?thesis using lt by simp
  qed
qed

lemma sort_keyed_same:
  "uniform (map fst xs) \<Longrightarrow> sort_keyed xs = Inr (sort_key (\<lambda>a. timeline (fst a)) xs)"
proof (induction xs)
  case Nil
  then show ?case by simp
next
  case (Cons x xs)
  from Cons.prems have u: "uniform (map fst xs)"
    and s: "\<forall>e \<in> set (map fst xs). aware e = aware (fst x)"
    by (simp_all add: uniform_Cons)
  from u have tl: "sort_keyed xs = Inr (sort_key (\<lambda>a. timeline (fst a)) xs)"
    by (rule Cons.IH)
  from s have "\<forall>y \<in> set (sort_key (\<lambda>a. timeline (fst a)) xs). aware (fst y) = aware (fst x)"
    by simp
  then have "insert_keyed x (sort_key (\<lambda>a. timeline (fst a)) xs)
      = Inr (insort_key (\<lambda>a. timeline (fst a)) x (sort_key (\<lambda>a. timeline (fst a)) xs))"
    by (rule insert_keyed_same)
  with tl show ?case by simp
qed

lemma sort_keyed_mixed:
  "\<not> uniform (map fst xs) \<Longrightarrow> sort_keyed xs = Inl TypeError"
proof (induction xs)
  case Nil
  then show ?case by (simp add: uniform_def)
next
  case (Cons x xs)
  show ?case
  proof (cases "uniform (map fst xs)")
    case False
    then have "sort_keyed xs = Inl TypeError" by (rule Cons.IH)
    then show ?thesis by simp
  next
    case True
    then have tl: "sort_keyed xs = Inr (sort_key (\<lambda>a. timeline (fst a)) xs)"
      by (rule sort_keyed_same)
    from Cons.prems True obtain b where b: "b \<in> set xs" "aware (fst b) \<noteq> aware (fst x)"
      by (auto simp: uniform_Cons)
    have all: "aware (fst y) \<noteq> aware (fst x)" if "y \<in> set xs" for y
    proof (cases "aware (fst b)")
      case True
      with \<open>uniform (map fst xs)\<close> b(1) have "\<forall>e \<in> set xs. aware (fst e)"
        by (auto simp: uniform_def list_all_iff)
      with that True b(2) show ?thesis by blast
    next
      case False
      with \<open>uniform (map fst xs)\<close> b(1) have "\<forall>e \<in> set xs. \<not> aware (fst e)"
        by (auto simp: uniform_def list_all_iff)
      with that False b(2) show ?thesis by blast
    qed
    have "set (sort_key (\<lambda>a. timeline (fst a)) xs) \<noteq> {}"
      using b(1) by auto
    then obtain y ys where ys: "sort_key (\<lambda>a. timeline (fst a)) xs = y # ys"
      by (cases "sort_key (\<lambda>a. timeline (fst a)) xs") simp_all
    have "y \<in> set (sort_key (\<lambda>a. timeline (fst a)) xs)"
      by (simp only: ys list.set_intros(1))
    then have "y \<in> set xs" by (simp only: set_sort)
    then have "aware (fst y) \<noteq> aware (fst x)" by (rule all)
    then have "dt_lt (fst y) (fst x) = Inl TypeError" by (rule dt_lt_diff)
    then show ?thesis using tl ys by simp
  qed
qed

lemma keys_of_parsed:
  "\<forall>m \<in> set ms. parses p m \<Longrightarrow> keys_of p ms = Inr (map (\<lambda>m. (instant p m, m)) ms)"
  by (induction ms) (auto simp: parses_def instant_def split: sum.splits)

lemma keys_of_unparsed:
  "\<exists>m \<in> set ms. \<not> parses p m \<Longrightarrow> keys_of p ms = Inl ValueError"
proof (induction ms)
  case Nil
  then show ?case by simp
next
  case (Cons m ms)
  show ?case
  proof (cases "parse_timestamp p (timestamp m)")
    case (Inl e)
    then have "e = ValueError"
      by (auto simp: parse_timestamp_def Let_def split: option.splits)
    with Inl show ?thesis by simp
  next
    case (Inr d)
    then have "parses p m" by (simp add: parses_def)
    with Cons have "keys_of p ms = Inl ValueError" by auto
    with Inr show ?thesis by simp
  qed
qed

lemma insort_key_map:
  "insort_key f (g x) (map g ys) = map g (insort_key (\<lambda>a. f (g a)) x ys)"
  by (induction ys) simp_all

lemma sort_key_map: "sort_key f (map g xs) = map g (sort_key (\<lambda>a. f (g a)) xs)"
  by (induction xs) (simp_all add: insort_key_map)

lemma sort_messages_unparsed:
  "\<exists>m \<in> set ms. \<not> parses p m \<Longrightarrow> sort_messages p ms = Inl ValueError"
  by (simp add: sort_messages_def keys_of_unparsed)

lemma sort_messages_sorted:
  assumes "\<forall>m \<in> set ms. parses p m" and "comparable p ms"
  shows "sort_messages p ms = Inr (sort_key (\<lambda>m. timeline (instant p m)) ms)"
proof -
  let ?g = "\<lambda>m. (instant p m, m)"
  have "uniform (map fst (map ?g ms))"
    using assms(2) by (simp add: comparable_def comp_def)
  then have "sort_keyed (map ?g ms) = Inr (sort_key (\<lambda>a. timeline (fst a)) (map ?g ms))"
    by (rule sort_keyed_same)
  moreover have "map snd (sort_key (\<lambda>a. timeline (fst a)) (map ?g ms))
      = sort_key (\<lambda>m. timeline (instant p m)) ms"
    by (simp add: sort_key_map comp_def)
  moreover have "keys_of p ms = Inr (map ?g ms)" using assms(1) by (rule keys_of_parsed)
  ultimately show ?thesis by (simp add: sort_messages_def)
qed

lemma sort_messages_mixed:
  assumes "\<forall>m \<in> set ms. parses p m" and "\<not> comparable p ms"
  shows "sort_messages p ms = Inl TypeError"
proof -
  let ?g = "\<lambda>m. (instant p m, m)"
  have "\<not> uniform (map fst (map ?g ms))"
    using assms(2) by (simp add: comparable_def comp_def)
  then have "sort_keyed (map ?g ms) = Inl TypeError"
    by (rule sort_keyed_mixed)
  moreover have "keys_of p ms = Inr (map ?g ms)" using assms(1) by (rule keys_of_parsed)
  ultimately show ?thesis by (simp add: sort_messages_def)
qed

text \<open>
  C8. When the timestamp of any message of the batch does not parse, the run raises
  ValueError out of the sort and leaves the world as it found it: nothing is printed,
  the log file is not opened, and no message is processed.
\<close>

theorem unparsable_timestamp_aborts:
  "\<exists>m \<in> set messages. \<not> parses fromisoformat m \<Longrightarrow>
   process_messages fromisoformat client messages log_file model npc_name w
     = (Some ValueError, w)"
  by (simp add: process_messages_def sort_messages_unparsed)

theorem unparsable_timestamp_aborts_witness:
  "(\<exists>m \<in> set [\<lparr>player_id = PInt 1, msg_text = ''hello'', timestamp = ''2024-01-01T10:00:01Z''\<rparr>,
                 \<lparr>player_id = PInt 2, msg_text = ''where?'', timestamp = ''not-a-date''\<rparr>].
       \<not> parses demo_fromisoformat m)
   \<and> process_messages demo_fromisoformat None
        [\<lparr>player_id = PInt 1, msg_text = ''hello'', timestamp = ''2024-01-01T10:00:01Z''\<rparr>,
         \<lparr>player_id = PInt 2, msg_text = ''where?'', timestamp = ''not-a-date''\<rparr>]
        ''logs/chat_log.jsonl'' ''gpt-3.5-turbo'' ''Elya the Ranger'' demo_world
       = (Some ValueError, demo_world)"
proof -
  have h: "\<exists>m \<in> set [\<lparr>player_id = PInt 1, msg_text = ''hello'', timestamp = ''2024-01-01T10:00:01Z''\<rparr>,
                 \<lparr>player_id = PInt 2, msg_text = ''where?'', timestamp = ''not-a-date''\<rparr>].
       \<not> parses demo_fromisoformat m"
    by (simp add: parses_def parse_timestamp_def demo_fromisoformat_def strip_def isspace_def)
  from h unparsable_timestamp_aborts [OF h] show ?thesis by simp
qed

section \<open>The loop\<close>

lemma last3_short: "length xs \<le> 3 \<Longrightarrow> last3 xs = xs"
  by (simp add: last3_def)

lemma length_last3: "length (last3 xs) \<le> 3"
  by (simp add: last3_def)

lemma last3_last3_append: "last3 (last3 xs @ ys) = last3 (xs @ ys)"
proof (cases "length xs \<le> 3")
  case True
  then show ?thesis by (simp add: last3_short)
next
  case False
  then have "length xs - 3 + 3 = length xs" by simp
  then show ?thesis by (simp add: last3_def add.commute)
qed

lemma process_one_states:
  "fst (process_one client log_file model npc_name i m (S, w)) =
     S(player_id m \<mapsto>
        (session S (player_id m))
          \<lparr>mood := fst (update_mood (msg_text m) (mood (session S (player_id m)))),
           last_messages := last3 (last_messages (session S (player_id m)) @ [msg_text m])\<rparr>)"
  by (cases "S (player_id m)")
     (simp_all add: process_one_def session_def Let_def split_def last3_short new_PlayerState_def)

lemma process_one_console:
  "console (snd (process_one client log_file model npc_name i m (S, w))) =
     console w @
     [[(''player_id'', json_of_pid (player_id m)),
       (''timestamp'', JStr (timestamp m)),
       (''message_text'', JStr (msg_text m)),
       (''npc_reply'', JStr (fst (generate_reply (map_option (\<lambda>c. c i) client) npc_name
           (fst (update_mood (msg_text m) (mood (session S (player_id m)))))
           (last3 (last_messages (session S (player_id m)))) (msg_text m) model))),
       (''state_used'', JArr (map JStr (last3 (last_messages (session S (player_id m)))))),
       (''npc_mood'', JStr (fst (update_mood (msg_text m) (mood (session S (player_id m)))))),
       (''mood_reason'', JStr (snd (update_mood (msg_text m) (mood (session S (player_id m)))))),
       (''model_source'', JStr (snd (generate_reply (map_option (\<lambda>c. c i) client) npc_name
           (fst (update_mood (msg_text m) (mood (session S (player_id m)))))
           (last3 (last_messages (session S (player_id m)))) (msg_text m) model))),
       (''npc_name'', JStr npc_name)]]"
  by (cases "S (player_id m)")
     (simp_all add: process_one_def session_def Let_def split_def)


lemma process_one_console_snd:
  "\<exists>e. console (snd (process_one client log_file model npc_name i m sw)) = console (snd sw) @ [e]"
  by (cases sw) (simp add: process_one_console)

lemma process_loop_append:
  "process_loop client log_file model npc_name i (xs @ ys) sw =
     process_loop client log_file model npc_name (i + length xs) ys
       (process_loop client log_file model npc_name i xs sw)"
  by (induction xs arbitrary: i sw) simp_all

lemma process_loop_snoc:
  "process_loop client log_file model npc_name i (xs @ [m]) sw =
     process_one client log_file model npc_name (i + length xs) m
       (process_loop client log_file model npc_name i xs sw)"
  by (simp add: process_loop_append)

lemma process_loop_console:
  "\<exists>es. console (snd (process_loop client log_file model npc_name i ms sw)) = console (snd sw) @ es
        \<and> length es = length ms"
proof (induction ms arbitrary: i sw)
  case Nil
  show ?case by simp
next
  case (Cons m ms)
  obtain e where e: "console (snd (process_one client log_file model npc_name i m sw))
      = console (snd sw) @ [e]"
    using process_one_console_snd by blast
  obtain es where es: "console (snd (process_loop client log_file model npc_name (Suc i) ms
        (process_one client log_file model npc_name i m sw)))
      = console (snd (process_one client log_file model npc_name i m sw)) @ es"
    and len: "length es = length ms"
    using Cons.IH by blast
  have "console (snd (process_loop client log_file model npc_name i (m # ms) sw))
      = console (snd sw) @ (e # es)"
    using e es by simp
  moreover have "length (e # es) = length (m # ms)" using len by simp
  ultimately show ?case by blast
qed

lemma emitted_nth:
  assumes "j < length ms"
  shows "emitted w (snd (process_loop client log_file model npc_name 0 ms (S, w))) ! j =
           last (console (snd (process_one client log_file model npc_name j (ms ! j)
             (process_loop client log_file model npc_name 0 (take j ms) (S, w)))))"
proof -
  let ?A = "process_loop client log_file model npc_name 0 (take j ms) (S, w)"
  let ?B = "process_one client log_file model npc_name j (ms ! j) ?A"
  have split: "ms = take j ms @ [ms ! j] @ drop (Suc j) ms"
    using assms by (simp add: id_take_nth_drop)
  have lj: "length (take j ms) = j" using assms by simp
  have "process_loop client log_file model npc_name 0 ms (S, w)
      = process_loop client log_file model npc_name 0 (take j ms @ [ms ! j] @ drop (Suc j) ms) (S, w)"
    using split by simp
  also have "\<dots> = process_loop client log_file model npc_name (Suc j) (drop (Suc j) ms) ?B"
    by (simp only: process_loop_append lj) simp
  finally have whole: "process_loop client log_file model npc_name 0 ms (S, w)
      = process_loop client log_file model npc_name (Suc j) (drop (Suc j) ms) ?B" .
  obtain ea where ea: "console (snd ?A) = console w @ ea" and la: "length ea = j"
    using process_loop_console [of client log_file model npc_name 0 "take j ms" "(S, w)"] lj
    by auto
  obtain e where e: "console (snd ?B) = console (snd ?A) @ [e]"
    using process_one_console_snd by blast
  obtain eb where eb: "console (snd (process_loop client log_file model npc_name (Suc j)
        (drop (Suc j) ms) ?B)) = console (snd ?B) @ eb"
    using process_loop_console by blast
  have "console (snd (process_loop client log_file model npc_name 0 ms (S, w)))
      = console w @ ea @ [e] @ eb"
    using whole ea e eb by simp
  then have "emitted w (snd (process_loop client log_file model npc_name 0 ms (S, w)))
      = ea @ [e] @ eb"
    by (simp add: emitted_def)
  then have "emitted w (snd (process_loop client log_file model npc_name 0 ms (S, w))) ! j = e"
    using la by (simp add: nth_append)
  moreover have "last (console (snd ?B)) = e" using e by simp
  ultimately show ?thesis by simp
qed

lemma emitted_length:
  "length (emitted w (snd (process_loop client log_file model npc_name i ms (S, w)))) = length ms"
proof -
  obtain es where "console (snd (process_loop client log_file model npc_name i ms (S, w)))
      = console w @ es" and "length es = length ms"
    using process_loop_console [of client log_file model npc_name i ms "(S, w)"] by auto
  then show ?thesis by (simp add: emitted_def)
qed

lemma session_upd:
  "session (S(q \<mapsto> st)) p = (if p = q then st else session S p)"
  by (simp add: session_def)

lemma window_loop:
  "last_messages (session (fst (process_loop client log_file model npc_name 0 ms (Map.empty, w))) p)
     = last3 (texts_of p ms)"
proof (induction ms rule: rev_induct)
  case Nil
  show ?case by (simp add: session_def new_PlayerState_def texts_of_def last3_def)
next
  case (snoc m ms)
  let ?A = "process_loop client log_file model npc_name 0 ms (Map.empty, w)"
  let ?old = "session (fst ?A) (player_id m)"
  let ?new = "?old\<lparr>mood := fst (update_mood (msg_text m) (mood ?old)),
                     last_messages := last3 (last_messages ?old @ [msg_text m])\<rparr>"
  have "process_loop client log_file model npc_name 0 (ms @ [m]) (Map.empty, w)
      = process_one client log_file model npc_name (length ms) m (fst ?A, snd ?A)"
    by (simp add: process_loop_snoc)
  then have step: "fst (process_loop client log_file model npc_name 0 (ms @ [m]) (Map.empty, w))
      = (fst ?A)(player_id m \<mapsto> ?new)"
    by (simp only: process_one_states)
  have sess: "session (fst (process_loop client log_file model npc_name 0 (ms @ [m]) (Map.empty, w))) p
      = (if p = player_id m then ?new else session (fst ?A) p)"
    by (simp only: step session_upd)
  show ?case
  proof (cases "p = player_id m")
    case True
    have "last_messages ?new = last3 (last_messages ?old @ [msg_text m])" by simp
    also have "\<dots> = last3 (last3 (texts_of p ms) @ [msg_text m])"
      using snoc.IH True by simp
    also have "\<dots> = last3 (texts_of p ms @ [msg_text m])"
      by (rule last3_last3_append)
    also have "\<dots> = last3 (texts_of p (ms @ [m]))"
      using True by (simp add: texts_of_def)
    finally show ?thesis using sess True by simp
  next
    case False
    then have "texts_of p (ms @ [m]) = texts_of p ms" by (auto simp: texts_of_def)
    then show ?thesis using sess False snoc.IH by simp
  qed
qed

lemma entry_nth:
  assumes "j < length ms"
  shows "emitted w (snd (process_loop client log_file model npc_name 0 ms (S, w))) ! j =
     (let m = ms ! j;
          old = session (fst (process_loop client log_file model npc_name 0 (take j ms) (S, w)))
                  (player_id m);
          context = last3 (last_messages old);
          moved = update_mood (msg_text m) (mood old);
          reply = generate_reply (map_option (\<lambda>c. c j) client) npc_name (fst moved) context
                    (msg_text m) model
      in [(''player_id'', json_of_pid (player_id m)),
          (''timestamp'', JStr (timestamp m)),
          (''message_text'', JStr (msg_text m)),
          (''npc_reply'', JStr (fst reply)),
          (''state_used'', JArr (map JStr context)),
          (''npc_mood'', JStr (fst moved)),
          (''mood_reason'', JStr (snd moved)),
          (''model_source'', JStr (snd reply)),
          (''npc_name'', JStr npc_name)])"
proof -
  let ?A = "process_loop client log_file model npc_name 0 (take j ms) (S, w)"
  have "emitted w (snd (process_loop client log_file model npc_name 0 ms (S, w))) ! j
      = last (console (snd (process_one client log_file model npc_name j (ms ! j) (fst ?A, snd ?A))))"
    using assms by (simp add: emitted_nth)
  then show ?thesis
    by (simp only: process_one_console Let_def) simp
qed

lemma state_after:
  assumes "j < length ms"
  shows "fst (process_loop client log_file model npc_name 0 (take (Suc j) ms) (S, w)) =
     (let before = fst (process_loop client log_file model npc_name 0 (take j ms) (S, w));
          m = ms ! j;
          old = session before (player_id m)
      in before(player_id m \<mapsto>
           old\<lparr>mood := fst (update_mood (msg_text m) (mood old)),
               last_messages := last3 (last_messages old @ [msg_text m])\<rparr>))"
proof -
  let ?A = "process_loop client log_file model npc_name 0 (take j ms) (S, w)"
  have lj: "length (take j ms) = j" using assms by simp
  have "take (Suc j) ms = take j ms @ [ms ! j]"
    using assms by (simp add: take_Suc_conv_app_nth)
  then have "process_loop client log_file model npc_name 0 (take (Suc j) ms) (S, w)
      = process_one client log_file model npc_name j (ms ! j) (fst ?A, snd ?A)"
    using lj by (simp add: process_loop_snoc)
  then show ?thesis
    by (simp only: process_one_states Let_def)
qed

lemma window_short: "length (last_messages (session
    (fst (process_loop client log_file model npc_name 0 ms (Map.empty, w))) p)) \<le> 3"
  by (simp add: window_loop length_last3)

lemma session_Some: "S p = Some st \<Longrightarrow> session S p = st"
  by (simp add: session_def)


text \<open>
  C5. For the message processed at position \<open>j\<close>: the mood engine is applied to the mood
  the session had before this message; the reply is generated from the new mood and from
  the context read before the text is appended; the entry logs the new mood, the reason,
  the reply with its source and that context; afterwards the session holds the new mood
  and the window with the text appended.
\<close>

theorem process_order:
  assumes "j < length ms"
  shows "let before = fst (process_loop client log_file model npc_name 0 (take j ms) (Map.empty, w));
             after = fst (process_loop client log_file model npc_name 0 (take (Suc j) ms) (Map.empty, w));
             m = ms ! j;
             old = session before (player_id m);
             context = last3 (last_messages old);
             new_mood = fst (update_mood (msg_text m) (mood old));
             reply = generate_reply (map_option (\<lambda>c. c j) client) npc_name new_mood context
                       (msg_text m) model;
             e = emitted w (snd (process_loop client log_file model npc_name 0 ms (Map.empty, w))) ! j
         in map_of e ''npc_mood'' = Some (JStr new_mood)
          \<and> map_of e ''mood_reason'' = Some (JStr (snd (update_mood (msg_text m) (mood old))))
          \<and> map_of e ''npc_reply'' = Some (JStr (fst reply))
          \<and> map_of e ''model_source'' = Some (JStr (snd reply))
          \<and> map_of e ''state_used'' = Some (JArr (map JStr context))
          \<and> mood (session after (player_id m)) = new_mood
          \<and> last_messages (session after (player_id m)) = last3 (last_messages old @ [msg_text m])"
  by (simp add: Let_def entry_nth [OF assms] state_after [OF assms] session_upd)

section \<open>Chronological order\<close>

lemma sort_messages_Inr:
  assumes "sort_messages p ms = Inr s"
  shows "(\<forall>m \<in> set ms. parses p m) \<and> comparable p ms
         \<and> s = sort_key (\<lambda>m. timeline (instant p m)) ms"
proof -
  have all: "\<forall>m \<in> set ms. parses p m"
  proof (rule ccontr)
    assume "\<not> (\<forall>m \<in> set ms. parses p m)"
    then have "\<exists>m \<in> set ms. \<not> parses p m" by blast
    then have "sort_messages p ms = Inl ValueError" by (rule sort_messages_unparsed)
    with assms show False by simp
  qed
  have cmp: "comparable p ms"
  proof (rule ccontr)
    assume "\<not> comparable p ms"
    with all have "sort_messages p ms = Inl TypeError" by (rule sort_messages_mixed)
    with assms show False by simp
  qed
  from all cmp have "sort_messages p ms = Inr (sort_key (\<lambda>m. timeline (instant p m)) ms)"
    by (rule sort_messages_sorted)
  with assms all cmp show ?thesis by simp
qed

lemma open_log_console: "open_log log_file w = Inr w' \<Longrightarrow> console w' = console w"
  by (auto simp: open_log_def split: if_splits)

lemma open_log_cases:
  obtains w' where "open_log log_file w = Inr w'" | e where "open_log log_file w = Inl e"
  by (cases "open_log log_file w") auto

lemma process_messages_run:
  assumes "sort_messages p ms = Inr s" and "open_log log_file w = Inr w'"
  shows "process_messages p client ms log_file model npc_name w
           = (None, snd (process_loop client log_file model npc_name 0 s (Map.empty, w')))"
  using assms by (simp add: process_messages_def)

lemma process_messages_closed:
  assumes "sort_messages p ms = Inr s" and "open_log log_file w = Inl e"
  shows "process_messages p client ms log_file model npc_name w = (Some e, w)"
  using assms by (simp add: process_messages_def)

lemma emitted_same_console: "console w' = console w \<Longrightarrow> emitted w x = emitted w' x"
  by (simp add: emitted_def)

lemma emitted_fields:
  "map (take 3) (emitted w (snd (process_loop client log_file model npc_name 0 ms (S, w))))
     = map input_fields ms"
proof (rule nth_equalityI)
  show "length (map (take 3) (emitted w (snd (process_loop client log_file model npc_name 0 ms (S, w)))))
      = length (map input_fields ms)"
    by (simp add: emitted_length)
next
  fix j
  assume "j < length (map (take 3)
      (emitted w (snd (process_loop client log_file model npc_name 0 ms (S, w)))))"
  then have j: "j < length ms" by (simp add: emitted_length)
  then show "map (take 3) (emitted w (snd (process_loop client log_file model npc_name 0 ms (S, w)))) ! j
      = map input_fields ms ! j"
    by (simp add: emitted_length entry_nth [OF j] Let_def input_fields_def)
qed

lemma emitted_failed:
  "sort_messages p ms = Inl e \<Longrightarrow>
   process_messages p client ms log_file model npc_name w = (Some e, w)"
  by (simp add: process_messages_def)

lemma uniform_same:
  "uniform ds \<Longrightarrow> a \<in> set ds \<Longrightarrow> b \<in> set ds \<Longrightarrow> aware a = aware b"
  by (auto simp: uniform_def list_all_iff)

lemma datetime_eq_iff: "aware a = aware b \<Longrightarrow> (a = b) = (timeline a = timeline b)"
  by (cases a; cases b) simp_all

lemma sorted_by_instant:
  assumes "comparable p ms"
  shows "sorted_wrt (\<lambda>a b. dt_lt (instant p b) (instant p a) = Inr False)
           (sort_key (\<lambda>m. timeline (instant p m)) ms)"
proof -
  let ?f = "\<lambda>m. timeline (instant p m)"
  have "sorted (map ?f (sort_key ?f ms))" by (rule sorted_sort_key)
  then have le: "sorted_wrt (\<lambda>a b. ?f a \<le> ?f b) (sort_key ?f ms)"
    by (simp only: sorted_map)
  show ?thesis
  proof (rule sorted_wrt_mono_rel [OF _ le])
    fix a b
    assume "a \<in> set (sort_key ?f ms)" and "b \<in> set (sort_key ?f ms)" and ab: "?f a \<le> ?f b"
    then have "instant p b \<in> set (map (instant p) ms)" and "instant p a \<in> set (map (instant p) ms)"
      by simp_all
    with assms have "aware (instant p b) = aware (instant p a)"
      unfolding comparable_def by (rule uniform_same)
    then have "dt_lt (instant p b) (instant p a) = Inr (?f b < ?f a)" by (rule dt_lt_same)
    with ab show "dt_lt (instant p b) (instant p a) = Inr False" by simp
  qed
qed

lemma stable_by_instant:
  assumes "comparable p ms"
  shows "filter (\<lambda>m. instant p m = k) (sort_key (\<lambda>m. timeline (instant p m)) ms)
           = filter (\<lambda>m. instant p m = k) ms"
proof -
  let ?f = "\<lambda>m. timeline (instant p m)"
  show ?thesis
  proof (cases "\<exists>m \<in> set ms. aware (instant p m) = aware k")
    case True
    then obtain m0 where m0: "m0 \<in> set ms" "aware (instant p m0) = aware k" by blast
    have eq: "(instant p m = k) = (?f m = timeline k)" if "m \<in> set ms" for m
    proof -
      from that m0(1) have "instant p m \<in> set (map (instant p) ms)"
        and "instant p m0 \<in> set (map (instant p) ms)" by simp_all
      with assms have "aware (instant p m) = aware (instant p m0)"
        unfolding comparable_def by (rule uniform_same)
      with m0(2) have "aware (instant p m) = aware k" by simp
      then show ?thesis by (rule datetime_eq_iff)
    qed
    have "filter (\<lambda>m. instant p m = k) (sort_key ?f ms)
        = filter (\<lambda>m. ?f m = timeline k) (sort_key ?f ms)"
      by (rule filter_cong) (simp_all add: eq)
    also have "\<dots> = filter (\<lambda>m. ?f m = timeline k) ms" by (rule sort_key_stable)
    also have "\<dots> = filter (\<lambda>m. instant p m = k) ms"
      by (rule filter_cong) (simp_all add: eq)
    finally show ?thesis .
  next
    case False
    then have none: "\<forall>m \<in> set ms. instant p m \<noteq> k" by blast
    then have "filter (\<lambda>m. instant p m = k) ms = []" by (simp add: filter_empty_conv)
    moreover have "filter (\<lambda>m. instant p m = k) (sort_key ?f ms) = []"
      using none by (simp add: filter_empty_conv)
    ultimately show ?thesis by simp
  qed
qed

text \<open>
  C3. When every timestamp of the batch parses, the entries printed by the run are those
  of a list of messages that is in non-decreasing order of instant and in which the
  messages of equal instant keep the order they have in the input. The run completes
  exactly when the instants can be compared with each other and the log file, if one is
  asked for, can be opened; that list is then a rearrangement of the whole batch.
  Otherwise the run raises (TypeError out of the sort when aware and naive instants are
  mixed) and nothing is printed.
\<close>

theorem chronological_stable:
  assumes "\<forall>m \<in> set messages. parses fromisoformat m"
  shows "\<exists>processed.
      map (take 3) (emitted w (snd (process_messages fromisoformat client messages log_file
        model npc_name w))) = map input_fields processed
    \<and> sorted_wrt (\<lambda>a b. dt_lt (instant fromisoformat b) (instant fromisoformat a) = Inr False)
        processed
    \<and> (\<forall>k. filter (\<lambda>m. instant fromisoformat m = k) processed
          = (if fst (process_messages fromisoformat client messages log_file model npc_name w)
                  = None
             then filter (\<lambda>m. instant fromisoformat m = k) messages else []))
    \<and> (if fst (process_messages fromisoformat client messages log_file model npc_name w) = None
       then mset processed = mset messages else processed = [])
    \<and> ((fst (process_messages fromisoformat client messages log_file model npc_name w) = None)
         = (comparable fromisoformat messages \<and> \<not> isl (open_log log_file w)))
    \<and> (\<not> comparable fromisoformat messages \<longrightarrow>
         fst (process_messages fromisoformat client messages log_file model npc_name w)
           = Some TypeError)"
proof (cases "comparable fromisoformat messages")
  case True
  let ?s = "sort_key (\<lambda>m. timeline (instant fromisoformat m)) messages"
  from assms True have srt: "sort_messages fromisoformat messages = Inr ?s"
    by (rule sort_messages_sorted)
  show ?thesis
  proof (cases rule: open_log_cases [of log_file w])
    case (1 w')
    have w': "console w' = console w" using 1 by (rule open_log_console)
    have run: "process_messages fromisoformat client messages log_file model npc_name w
        = (None, snd (process_loop client log_file model npc_name 0 ?s (Map.empty, w')))"
      using srt 1 by (rule process_messages_run)
    have "map (take 3) (emitted w (snd (process_messages fromisoformat client messages log_file
          model npc_name w))) = map input_fields ?s"
      by (simp only: run snd_conv emitted_same_console [OF w'] emitted_fields)
    moreover have "sorted_wrt (\<lambda>a b. dt_lt (instant fromisoformat b) (instant fromisoformat a)
        = Inr False) ?s"
      using True by (rule sorted_by_instant)
    moreover have "\<forall>k. filter (\<lambda>m. instant fromisoformat m = k) ?s
        = filter (\<lambda>m. instant fromisoformat m = k) messages"
      using True by (simp add: stable_by_instant)
    moreover have "mset ?s = mset messages" by simp
    moreover have "fst (process_messages fromisoformat client messages log_file model npc_name w)
        = None"
      by (simp add: run)
    moreover have "\<not> isl (open_log log_file w)" using 1 by simp
    ultimately show ?thesis using True by auto
  next
    case (2 e)
    have "process_messages fromisoformat client messages log_file model npc_name w = (Some e, w)"
      using srt 2 by (rule process_messages_closed)
    then have "emitted w (snd (process_messages fromisoformat client messages log_file
        model npc_name w)) = []"
      and "fst (process_messages fromisoformat client messages log_file model npc_name w)
        = Some e"
      by (simp_all add: emitted_def)
    moreover have "isl (open_log log_file w)" using 2 by simp
    ultimately show ?thesis using True by auto
  qed
next
  case False
  with assms have "sort_messages fromisoformat messages = Inl TypeError"
    by (rule sort_messages_mixed)
  then have "process_messages fromisoformat client messages log_file model npc_name w
      = (Some TypeError, w)"
    by (rule emitted_failed)
  then have "emitted w (snd (process_messages fromisoformat client messages log_file
      model npc_name w)) = []"
    and "fst (process_messages fromisoformat client messages log_file model npc_name w)
      = Some TypeError"
    by (simp_all add: emitted_def)
  then show ?thesis using False by auto
qed

section \<open>Example runs\<close>


lemma demo_parses: "\<forall>m \<in> set demo_batch. parses demo_fromisoformat m"
  by (simp add: demo_batch_def parses_def parse_timestamp_def demo_fromisoformat_def
      strip_def isspace_def)

lemma demo_instants:
  "map (instant demo_fromisoformat) demo_batch
     = [Aware 1704103202000000, Aware 1704103201000000, Aware 1704103201000000]"
  by (simp add: demo_batch_def instant_def parse_timestamp_def demo_fromisoformat_def
      strip_def isspace_def)

lemma demo_sorted:
  "sort_messages demo_fromisoformat demo_batch = Inr [demo_batch ! 1, demo_batch ! 2, demo_batch ! 0]"
  by (simp add: sort_messages_def demo_batch_def parse_timestamp_def demo_fromisoformat_def
      strip_def isspace_def)


lemma demo_console:
  "console (snd (process_messages demo_fromisoformat None demo_batch [] ''gpt-3.5-turbo''
      ''Elya the Ranger'' demo_world)) =
     [[(''player_id'', JInt 2),
       (''timestamp'', JStr '' 2024-01-01T10:00:01Z''),
       (''message_text'', JStr ''hi''),
       (''npc_reply'', JStr ''What do you need? I can offer directions or information.''),
       (''state_used'', JArr []),
       (''npc_mood'', JStr ''neutral''),
       (''mood_reason'', JStr ''no_change''),
       (''model_source'', JStr ''fallback''),
       (''npc_name'', JStr ''Elya the Ranger'')],
      [(''player_id'', JInt 2),
       (''timestamp'', JStr ''2024-01-01T10:00:01+00:00''),
       (''message_text'', JStr ''hi''),
       (''npc_reply'', JStr ''What do you need? I can offer directions or information.''),
       (''state_used'', JArr [JStr ''hi'']),
       (''npc_mood'', JStr ''neutral''),
       (''mood_reason'', JStr ''no_change''),
       (''model_source'', JStr ''fallback''),
       (''npc_name'', JStr ''Elya the Ranger'')],
      [(''player_id'', JInt 1),
       (''timestamp'', JStr ''2024-01-01T10:00:02Z''),
       (''message_text'', JStr ''You are useless''),
       (''npc_reply'', JStr ''Make it quick. East road leads to the mill.''),
       (''state_used'', JArr []),
       (''npc_mood'', JStr ''angry''),
       (''mood_reason'', JStr ''insult_detected''),
       (''model_source'', JStr ''fallback''),
       (''npc_name'', JStr ''Elya the Ranger'')]]"
  by (simp add: process_messages_def demo_sorted open_log_def)
     (simp add: demo_batch_def demo_world_def process_one_def Let_def new_PlayerState_def
        last3_def update_mood_def generate_reply_def rule_based_reply_def lower_def
        endswith_def INSULT_KEYWORDS_def HELP_KEYWORDS_def)

lemma demo_open_log:
  "open_log ''logs/chat_log.jsonl'' demo_world
     = Inr (demo_world\<lparr>files := (files demo_world)(''logs/chat_log.jsonl'' \<mapsto> [])\<rparr>)"
  by (simp add: open_log_def dirname_def demo_world_def)

lemma demo_no_directory_part:
  "process_messages demo_fromisoformat None demo_batch ''chat.jsonl'' ''gpt-3.5-turbo''
      ''Elya the Ranger'' demo_world = (Some FileNotFoundError, demo_world)"
  by (simp add: process_messages_def demo_sorted open_log_def dirname_def)


section \<open>Context window and log entries\<close>

lemma last3_idem: "last3 (last3 xs) = last3 xs"
  using last3_last3_append [of xs "[]"] by simp

lemma snapshot_nth:
  assumes "j < length ms"
  shows "map_of (emitted w (snd (process_loop client log_file model npc_name 0 ms (Map.empty, w))) ! j)
           ''state_used''
         = Some (JArr (map JStr (last3 (texts_of (player_id (ms ! j)) (take j ms)))))"
  by (simp add: entry_nth [OF assms] Let_def window_loop last3_idem)

lemma entry_keys:
  assumes "j < length ms"
  shows "map fst (emitted w (snd (process_loop client log_file model npc_name 0 ms (S, w))) ! j)
         = [''player_id'', ''timestamp'', ''message_text'', ''npc_reply'', ''state_used'',
            ''npc_mood'', ''mood_reason'', ''model_source'', ''npc_name'']"
  by (simp add: entry_nth [OF assms] Let_def)

lemma entry_copied:
  assumes "j < length ms"
  shows "map_of (emitted w (snd (process_loop client log_file model npc_name 0 ms (S, w))) ! j)
           ''player_id'' = Some (json_of_pid (player_id (ms ! j)))
       \<and> map_of (emitted w (snd (process_loop client log_file model npc_name 0 ms (S, w))) ! j)
           ''timestamp'' = Some (JStr (timestamp (ms ! j)))
       \<and> map_of (emitted w (snd (process_loop client log_file model npc_name 0 ms (S, w))) ! j)
           ''message_text'' = Some (JStr (msg_text (ms ! j)))
       \<and> map_of (emitted w (snd (process_loop client log_file model npc_name 0 ms (S, w))) ! j)
           ''npc_name'' = Some (JStr npc_name)"
  by (simp add: entry_nth [OF assms] Let_def)

text \<open>
  C4. After any run of the loop the stored window of a player holds at most 3 texts;
  when the player has sent at least 3 messages it holds exactly the last 3 of them,
  oldest first; and the context logged for the message at position \<open>j\<close> is the last (at
  most 3) texts of the earlier messages of the same player: it is read before the
  append, so the message's own text is not yet in it.
\<close>

theorem context_window:
  "let R = process_loop client log_file model npc_name 0 ms (Map.empty, w)
   in (\<forall>p st. fst R p = Some st \<longrightarrow> length (last_messages st) \<le> 3)
    \<and> (\<forall>p st. fst R p = Some st \<and> 3 \<le> length (texts_of p ms) \<longrightarrow>
          last_messages st = drop (length (texts_of p ms) - 3) (texts_of p ms))
    \<and> (\<forall>j < length ms.
          map_of (emitted w (snd R) ! j) ''state_used''
            = Some (JArr (map JStr (last3 (texts_of (player_id (ms ! j)) (take j ms))))))"
proof -
  let ?R = "process_loop client log_file model npc_name 0 ms (Map.empty, w)"
  have win: "last_messages st = last3 (texts_of p ms)" if "fst ?R p = Some st" for p st
    using that window_loop [of client log_file model npc_name ms w p] by (simp add: session_Some)
  have a: "\<forall>p st. fst ?R p = Some st \<longrightarrow> length (last_messages st) \<le> 3"
  proof (intro allI impI)
    fix p st assume "fst ?R p = Some st"
    then have "last_messages st = last3 (texts_of p ms)" by (rule win)
    then show "length (last_messages st) \<le> 3" by (simp add: length_last3)
  qed
  have b: "\<forall>p st. fst ?R p = Some st \<and> 3 \<le> length (texts_of p ms) \<longrightarrow>
      last_messages st = drop (length (texts_of p ms) - 3) (texts_of p ms)"
  proof (intro allI impI)
    fix p st assume "fst ?R p = Some st \<and> 3 \<le> length (texts_of p ms)"
    then have "last_messages st = last3 (texts_of p ms)" by (simp add: win)
    then show "last_messages st = drop (length (texts_of p ms) - 3) (texts_of p ms)"
      by (simp add: last3_def)
  qed
  have c: "\<forall>j < length ms. map_of (emitted w (snd ?R) ! j) ''state_used''
      = Some (JArr (map JStr (last3 (texts_of (player_id (ms ! j)) (take j ms)))))"
    by (simp add: snapshot_nth)
  from a b c show ?thesis by (simp only: Let_def)
qed

lemma demo_chat_run:
  "last_messages (session (fst (process_loop None [] ''gpt-3.5-turbo'' ''Elya the Ranger'' 0
      demo_chat (Map.empty, demo_world))) (PInt 7)) = [''two'', ''three'', ''four'']"
  by (simp only: window_loop) (simp add: texts_of_def demo_chat_def last3_def)


lemma demo_chat_texts: "texts_of (PInt 7) demo_chat = [''one'', ''two'', ''three'', ''four'']"
  by (simp add: texts_of_def demo_chat_def)

lemma process_one_states_any:
  "fst (process_one client log_file model npc_name i m sw) (player_id m) \<noteq> None"
  by (cases sw) (simp add: process_one_states)

lemma process_one_keeps:
  "fst sw p \<noteq> None \<Longrightarrow> fst (process_one client log_file model npc_name i m sw) p \<noteq> None"
  by (cases sw) (simp add: process_one_states)

lemma loop_has_state:
  "m \<in> set ms \<Longrightarrow>
   fst (process_loop client log_file model npc_name i ms sw) (player_id m) \<noteq> None"
proof (induction ms rule: rev_induct)
  case Nil
  then show ?case by simp
next
  case (snoc x xs)
  show ?case
  proof (cases "m = x")
    case True
    then show ?thesis by (simp only: process_loop_snoc process_one_states_any not_False_eq_True)
  next
    case False
    with snoc.prems have "m \<in> set xs" by simp
    then have "fst (process_loop client log_file model npc_name i xs sw) (player_id m) \<noteq> None"
      by (rule snoc.IH)
    then show ?thesis by (simp only: process_loop_snoc process_one_keeps not_False_eq_True)
  qed
qed

lemma demo_chat_state:
  "\<exists>st. fst (process_loop None [] ''gpt-3.5-turbo'' ''Elya the Ranger'' 0 demo_chat
      (Map.empty, demo_world)) (PInt 7) = Some st"
proof -
  let ?m = "\<lparr>player_id = PInt 7, msg_text = ''one'', timestamp = ''2024-01-01T10:00:00''\<rparr>"
  have "?m \<in> set demo_chat" by (simp add: demo_chat_def)
  then have "fst (process_loop None [] ''gpt-3.5-turbo'' ''Elya the Ranger'' 0 demo_chat
      (Map.empty, demo_world)) (player_id ?m) \<noteq> None"
    by (rule loop_has_state)
  then show ?thesis by simp
qed

theorem context_window_witness:
  "(\<exists>st. fst (process_loop None [] ''gpt-3.5-turbo'' ''Elya the Ranger'' 0 demo_chat
          (Map.empty, demo_world)) (PInt 7) = Some st
        \<and> 3 \<le> length (texts_of (PInt 7) demo_chat)
        \<and> last_messages st = [''two'', ''three'', ''four''])
   \<and> 3 < length demo_chat
   \<and> map_of (emitted demo_world (snd (process_loop None [] ''gpt-3.5-turbo'' ''Elya the Ranger'' 0
        demo_chat (Map.empty, demo_world))) ! 3) ''state_used''
       = Some (JArr [JStr ''one'', JStr ''two'', JStr ''three''])"
proof -
  obtain st where st: "fst (process_loop None [] ''gpt-3.5-turbo'' ''Elya the Ranger'' 0 demo_chat
      (Map.empty, demo_world)) (PInt 7) = Some st"
    using demo_chat_state by blast
  have n: "3 \<le> length (texts_of (PInt 7) demo_chat)" by (simp add: demo_chat_texts)
  have j: "3 < length demo_chat" by (simp add: demo_chat_def)
  have t: "texts_of (player_id (demo_chat ! 3)) (take 3 demo_chat) = [''one'', ''two'', ''three'']"
    by (simp add: texts_of_def demo_chat_def)
  note cw = context_window [of None "[]" "''gpt-3.5-turbo''" "''Elya the Ranger''" demo_chat
      demo_world, unfolded Let_def]
  from st n have "last_messages st
      = drop (length (texts_of (PInt 7) demo_chat) - 3) (texts_of (PInt 7) demo_chat)"
    using cw [THEN conjunct2, THEN conjunct1, rule_format, of "PInt 7" st] by simp
  then have w: "last_messages st = [''two'', ''three'', ''four'']"
    by (simp add: demo_chat_texts)
  have "map_of (emitted demo_world (snd (process_loop None [] ''gpt-3.5-turbo''
      ''Elya the Ranger'' 0 demo_chat (Map.empty, demo_world))) ! 3) ''state_used''
      = Some (JArr (map JStr (last3 (texts_of (player_id (demo_chat ! 3)) (take 3 demo_chat)))))"
    using cw [THEN conjunct2, THEN conjunct2, rule_format, OF j] .
  then have s: "map_of (emitted demo_world (snd (process_loop None [] ''gpt-3.5-turbo''
      ''Elya the Ranger'' 0 demo_chat (Map.empty, demo_world))) ! 3) ''state_used''
      = Some (JArr [JStr ''one'', JStr ''two'', JStr ''three''])"
    by (simp add: t last3_def)
  from st n w have "\<exists>st. fst (process_loop None [] ''gpt-3.5-turbo'' ''Elya the Ranger'' 0 demo_chat
          (Map.empty, demo_world)) (PInt 7) = Some st
        \<and> 3 \<le> length (texts_of (PInt 7) demo_chat)
        \<and> last_messages st = [''two'', ''three'', ''four'']"
    by (intro exI conjI)
  with j s show ?thesis by (intro conjI)
qed

text \<open>
  C6, as the claim states it, fails: the entry printed for a message has the keys
  \<open>state_used\<close> and \<open>model_source\<close>, and no key \<open>context_used\<close> or \<open>reply_source\<close>.
\<close>

theorem log_keys_differ:
  "map fst (emitted demo_world (snd (process_messages demo_fromisoformat None demo_batch []
      ''gpt-3.5-turbo'' ''Elya the Ranger'' demo_world)) ! 0)
     = [''player_id'', ''timestamp'', ''message_text'', ''npc_reply'', ''state_used'',
        ''npc_mood'', ''mood_reason'', ''model_source'', ''npc_name'']
   \<and> map_of (emitted demo_world (snd (process_messages demo_fromisoformat None demo_batch []
      ''gpt-3.5-turbo'' ''Elya the Ranger'' demo_world)) ! 0) ''context_used'' = None
   \<and> map_of (emitted demo_world (snd (process_messages demo_fromisoformat None demo_batch []
      ''gpt-3.5-turbo'' ''Elya the Ranger'' demo_world)) ! 0) ''reply_source'' = None"
  by (simp add: emitted_def demo_console) (simp add: demo_world_def)

text \<open>
  C6, as the code has it. The messages are processed when the sort succeeds and the log
  file, if one is asked for, can be opened. The run then raises nothing and prints
  exactly one entry per message; the entry at position \<open>j\<close> has the keys player_id,
  timestamp, message_text, npc_reply, state_used, npc_mood, mood_reason, model_source,
  npc_name, in this order; player_id, timestamp (the original string), message_text and
  npc_name are copied from the message and the configuration, and state_used is the
  context read before the append.
\<close>

theorem log_record_shape:
  assumes "sort_messages fromisoformat messages = Inr processed"
    and "\<not> isl (open_log log_file w)"
  shows "let r = process_messages fromisoformat client messages log_file model npc_name w;
             out = emitted w (snd r)
         in fst r = None
          \<and> length out = length messages
          \<and> (\<forall>j < length processed.
                map fst (out ! j)
                  = [''player_id'', ''timestamp'', ''message_text'', ''npc_reply'', ''state_used'',
                     ''npc_mood'', ''mood_reason'', ''model_source'', ''npc_name'']
              \<and> map_of (out ! j) ''player_id'' = Some (json_of_pid (player_id (processed ! j)))
              \<and> map_of (out ! j) ''timestamp'' = Some (JStr (timestamp (processed ! j)))
              \<and> map_of (out ! j) ''message_text'' = Some (JStr (msg_text (processed ! j)))
              \<and> map_of (out ! j) ''state_used''
                  = Some (JArr (map JStr
                      (last3 (texts_of (player_id (processed ! j)) (take j processed)))))
              \<and> map_of (out ! j) ''npc_name'' = Some (JStr npc_name))"
proof -
  obtain w' where opened: "open_log log_file w = Inr w'"
    using assms(2) by (cases "open_log log_file w") simp_all
  have w': "console w' = console w" using opened by (rule open_log_console)
  have run: "process_messages fromisoformat client messages log_file model npc_name w
      = (None, snd (process_loop client log_file model npc_name 0 processed (Map.empty, w')))"
    using assms(1) opened by (rule process_messages_run)
  let ?out = "emitted w' (snd (process_loop client log_file model npc_name 0 processed
      (Map.empty, w')))"
  have out: "emitted w (snd (process_messages fromisoformat client messages log_file model
      npc_name w)) = ?out"
    by (simp only: run snd_conv emitted_same_console [OF w'])
  have "processed = sort_key (\<lambda>m. timeline (instant fromisoformat m)) messages"
    using sort_messages_Inr [OF assms(1)] by blast
  then have len: "length processed = length messages" by simp
  have a: "fst (process_messages fromisoformat client messages log_file model npc_name w) = None"
    by (simp add: run)
  have b: "length ?out = length messages" by (simp add: emitted_length len)
  have c: "\<forall>j < length processed.
        map fst (?out ! j)
          = [''player_id'', ''timestamp'', ''message_text'', ''npc_reply'', ''state_used'',
             ''npc_mood'', ''mood_reason'', ''model_source'', ''npc_name'']
      \<and> map_of (?out ! j) ''player_id'' = Some (json_of_pid (player_id (processed ! j)))
      \<and> map_of (?out ! j) ''timestamp'' = Some (JStr (timestamp (processed ! j)))
      \<and> map_of (?out ! j) ''message_text'' = Some (JStr (msg_text (processed ! j)))
      \<and> map_of (?out ! j) ''state_used''
          = Some (JArr (map JStr
              (last3 (texts_of (player_id (processed ! j)) (take j processed)))))
      \<and> map_of (?out ! j) ''npc_name'' = Some (JStr npc_name)"
  proof (intro allI impI)
    fix j assume j: "j < length processed"
    show "map fst (?out ! j)
          = [''player_id'', ''timestamp'', ''message_text'', ''npc_reply'', ''state_used'',
             ''npc_mood'', ''mood_reason'', ''model_source'', ''npc_name'']
      \<and> map_of (?out ! j) ''player_id'' = Some (json_of_pid (player_id (processed ! j)))
      \<and> map_of (?out ! j) ''timestamp'' = Some (JStr (timestamp (processed ! j)))
      \<and> map_of (?out ! j) ''message_text'' = Some (JStr (msg_text (processed ! j)))
      \<and> map_of (?out ! j) ''state_used''
          = Some (JArr (map JStr
              (last3 (texts_of (player_id (processed ! j)) (take j processed)))))
      \<and> map_of (?out ! j) ''npc_name'' = Some (JStr npc_name)"
      by (simp only: entry_keys [OF j] entry_copied [OF j] snapshot_nth [OF j] simp_thms)
  qed
  from a b c show ?thesis by (simp only: Let_def out)
qed

theorem log_record_shape_witness:
  "sort_messages demo_fromisoformat demo_batch = Inr [demo_batch ! 1, demo_batch ! 2, demo_batch ! 0]
   \<and> \<not> isl (open_log ''logs/chat_log.jsonl'' demo_world)
   \<and> length (emitted demo_world (snd (process_messages demo_fromisoformat None demo_batch
        ''logs/chat_log.jsonl'' ''gpt-3.5-turbo'' ''Elya the Ranger'' demo_world))) = 3
   \<and> map_of (emitted demo_world (snd (process_messages demo_fromisoformat None demo_batch
        ''logs/chat_log.jsonl'' ''gpt-3.5-turbo'' ''Elya the Ranger'' demo_world)) ! 2) ''timestamp''
       = Some (JStr ''2024-01-01T10:00:02Z'')"
proof -
  have o: "\<not> isl (open_log ''logs/chat_log.jsonl'' demo_world)"
    by (simp add: demo_open_log)
  note s = log_record_shape [OF demo_sorted o, of None "''gpt-3.5-turbo''"
      "''Elya the Ranger''", unfolded Let_def]
  have "length (emitted demo_world (snd (process_messages demo_fromisoformat None demo_batch
      ''logs/chat_log.jsonl'' ''gpt-3.5-turbo'' ''Elya the Ranger'' demo_world)))
      = length demo_batch"
    using s [THEN conjunct2, THEN conjunct1] .
  then have l: "length (emitted demo_world (snd (process_messages demo_fromisoformat None
      demo_batch ''logs/chat_log.jsonl'' ''gpt-3.5-turbo'' ''Elya the Ranger'' demo_world))) = 3"
    by (simp add: demo_batch_def)
  have two: "(2::nat) < length [demo_batch ! 1, demo_batch ! 2, demo_batch ! 0]" by simp
  have "map_of (emitted demo_world (snd (process_messages demo_fromisoformat None demo_batch
      ''logs/chat_log.jsonl'' ''gpt-3.5-turbo'' ''Elya the Ranger'' demo_world)) ! 2) ''timestamp''
      = Some (JStr (timestamp ([demo_batch ! 1, demo_batch ! 2, demo_batch ! 0] ! 2)))"
    using s [THEN conjunct2, THEN conjunct2, rule_format, OF two] by blast
  then have t: "map_of (emitted demo_world (snd (process_messages demo_fromisoformat None
      demo_batch ''logs/chat_log.jsonl'' ''gpt-3.5-turbo'' ''Elya the Ranger'' demo_world)) ! 2)
      ''timestamp'' = Some (JStr ''2024-01-01T10:00:02Z'')"
    by (simp add: demo_batch_def)
  from demo_sorted o l t show ?thesis by (intro conjI)
qed

section \<open>Timestamp normalisation\<close>

lemma replace_Z:
  "replace ''Z'' new s = concat (map (\<lambda>c. if c = CHR ''Z'' then new else [c]) s)"
proof (induction s)
  case Nil
  show ?case by simp
next
  case (Cons a s)
  show ?case
  proof (cases "a = CHR ''Z''")
    case True
    then show ?thesis using Cons by simp
  next
    case False
    then show ?thesis using Cons by simp
  qed
qed

lemma last_dropWhile: "dropWhile P xs \<noteq> [] \<Longrightarrow> last (dropWhile P xs) = last xs"
  by (induction xs) (auto split: if_splits)

lemma strip_decompose:
  "\<exists>pre post. s = pre @ strip s @ post \<and> list_all isspace pre \<and> list_all isspace post"
proof -
  let ?t = "dropWhile isspace s"
  have s: "s = takeWhile isspace s @ ?t" by simp
  have "rev (dropWhile isspace (rev ?t)) @ rev (takeWhile isspace (rev ?t))
      = rev (takeWhile isspace (rev ?t) @ dropWhile isspace (rev ?t))"
    by (simp only: rev_append)
  also have "\<dots> = rev (rev ?t)" by (simp only: takeWhile_dropWhile_id)
  also have "\<dots> = ?t" by (simp only: rev_rev_ident)
  finally have "?t = rev (dropWhile isspace (rev ?t)) @ rev (takeWhile isspace (rev ?t))"
    by (rule sym)
  then have t: "?t = strip s @ rev (takeWhile isspace (rev ?t))"
    by (simp only: strip_def)
  have a: "list_all isspace (takeWhile isspace s)"
    by (simp add: list_all_iff) (meson set_takeWhileD)
  have b: "list_all isspace (rev (takeWhile isspace (rev ?t)))"
    by (simp add: list_all_iff) (meson set_takeWhileD)
  from s t have "s = takeWhile isspace s @ strip s @ rev (takeWhile isspace (rev ?t))" by simp
  with a b show ?thesis by blast
qed

lemma strip_ends:
  assumes "strip s \<noteq> []"
  shows "\<not> isspace (hd (strip s)) \<and> \<not> isspace (last (strip s))"
proof -
  let ?t = "dropWhile isspace s"
  let ?u = "dropWhile isspace (rev ?t)"
  from assms have u: "?u \<noteq> []" by (simp add: strip_def)
  have "?u = []" if "?t = []"
    by (simp only: that rev.simps dropWhile.simps)
  with u have t: "?t \<noteq> []" by blast
  have "last (strip s) = hd ?u" using u by (simp add: strip_def last_rev)
  moreover have "\<not> isspace (hd ?u)" using u by (rule hd_dropWhile)
  moreover have "hd (strip s) = last ?u" using u by (simp add: strip_def hd_rev)
  moreover have "last ?u = last (rev ?t)" using u by (rule last_dropWhile)
  moreover have "last (rev ?t) = hd ?t" using t by (simp add: last_rev)
  moreover have "\<not> isspace (hd ?t)" using t by (rule hd_dropWhile)
  ultimately show ?thesis by simp
qed

lemma concat_no_Z:
  "CHR ''Z'' \<notin> set u \<Longrightarrow> concat (map (\<lambda>c. if c = CHR ''Z'' then new else [c]) u) = u"
  by (induction u) auto

lemma normalize_trailing_Z:
  assumes "CHR ''Z'' \<notin> set (butlast u)"
  shows "concat (map (\<lambda>c. if c = CHR ''Z'' then ''+00:00'' else [c]) u)
         = (if endswith u ''Z'' then butlast u @ ''+00:00'' else u)"
proof (cases u rule: rev_cases)
  case Nil
  then show ?thesis by (simp add: endswith_def)
next
  case (snoc ys y)
  with assms have "CHR ''Z'' \<notin> set ys" by simp
  then have "concat (map (\<lambda>c. if c = CHR ''Z'' then ''+00:00'' else [c]) ys) = ys"
    by (rule concat_no_Z)
  then show ?thesis using snoc by (simp add: endswith_def)
qed

text \<open>
  C9, as the code has it. The string handed to the ISO parser is the raw string with the
  surrounding whitespace trimmed and every \<open>Z\<close>, wherever it stands, replaced by
  \<open>+00:00\<close>; nothing else is changed. The result is the parser's value on that string
  and ValueError when the parser rejects it. When the trimmed string has no \<open>Z\<close> before
  its last character, that string is the normalisation of the specification.
\<close>

theorem parse_timestamp_normalization:
  "parse_timestamp fromisoformat ts
     = (case fromisoformat
               (concat (map (\<lambda>c. if c = CHR ''Z'' then ''+00:00'' else [c]) (strip ts))) of
          None \<Rightarrow> Inl ValueError
        | Some d \<Rightarrow> Inr d)
   \<and> (\<exists>pre post. ts = pre @ strip ts @ post \<and> list_all isspace pre \<and> list_all isspace post)
   \<and> (strip ts \<noteq> [] \<longrightarrow> \<not> isspace (hd (strip ts)) \<and> \<not> isspace (last (strip ts)))
   \<and> (CHR ''Z'' \<notin> set (butlast (strip ts)) \<longrightarrow>
        concat (map (\<lambda>c. if c = CHR ''Z'' then ''+00:00'' else [c]) (strip ts))
          = spec_normalize ts)"
proof (intro conjI impI)
  show "parse_timestamp fromisoformat ts
     = (case fromisoformat
               (concat (map (\<lambda>c. if c = CHR ''Z'' then ''+00:00'' else [c]) (strip ts))) of
          None \<Rightarrow> Inl ValueError
        | Some d \<Rightarrow> Inr d)"
    by (simp add: parse_timestamp_def replace_Z)
next
  show "\<exists>pre post. ts = pre @ strip ts @ post \<and> list_all isspace pre \<and> list_all isspace post"
    by (rule strip_decompose)
next
  assume "strip ts \<noteq> []"
  then show "\<not> isspace (hd (strip ts))" by (simp add: strip_ends)
next
  assume "strip ts \<noteq> []"
  then show "\<not> isspace (last (strip ts))" by (simp add: strip_ends)
next
  assume "CHR ''Z'' \<notin> set (butlast (strip ts))"
  then show "concat (map (\<lambda>c. if c = CHR ''Z'' then ''+00:00'' else [c]) (strip ts))
      = spec_normalize ts"
    by (simp add: normalize_trailing_Z spec_normalize_def)
qed

theorem parse_timestamp_normalization_witness:
  "strip '' 2024-01-01T10:00:01Z '' \<noteq> []
   \<and> CHR ''Z'' \<notin> set (butlast (strip '' 2024-01-01T10:00:01Z ''))
   \<and> spec_normalize '' 2024-01-01T10:00:01Z '' = ''2024-01-01T10:00:01+00:00''
   \<and> parse_timestamp demo_fromisoformat '' 2024-01-01T10:00:01Z '' = Inr (Aware 1704103201000000)"
proof -
  have s: "strip '' 2024-01-01T10:00:01Z '' = ''2024-01-01T10:00:01Z''"
    by (simp add: strip_def isspace_def)
  have n: "spec_normalize '' 2024-01-01T10:00:01Z '' = ''2024-01-01T10:00:01+00:00''"
    by (simp add: spec_normalize_def s endswith_def)
  have z: "CHR ''Z'' \<notin> set (butlast (strip '' 2024-01-01T10:00:01Z ''))"
    by (simp add: s)
  note p = parse_timestamp_normalization [of demo_fromisoformat "'' 2024-01-01T10:00:01Z ''"]
  from p z have "concat (map (\<lambda>c. if c = CHR ''Z'' then ''+00:00'' else [c])
      (strip '' 2024-01-01T10:00:01Z '')) = spec_normalize '' 2024-01-01T10:00:01Z ''"
    by (simp only: simp_thms)
  with p have "parse_timestamp demo_fromisoformat '' 2024-01-01T10:00:01Z ''
      = (case demo_fromisoformat (spec_normalize '' 2024-01-01T10:00:01Z '') of
          None \<Rightarrow> Inl ValueError | Some d \<Rightarrow> Inr d)"
    by (simp only:)
  then have "parse_timestamp demo_fromisoformat '' 2024-01-01T10:00:01Z ''
      = Inr (Aware 1704103201000000)"
    by (simp add: n demo_fromisoformat_def)
  with s n z show ?thesis by simp
qed

text \<open>
  C9, as the claim states it, fails: a \<open>Z\<close> that is not trailing is replaced too. The
  string \<open>2024-01-01T12:00:00Z:30\<close> is unchanged by the two transformations of the
  claim and is no ISO timestamp, yet the code parses it, as \<open>2024-01-01T12:00:00+00:00:30\<close>.
\<close>

theorem inner_Z_is_replaced:
  "parse_timestamp demo_fromisoformat ''2024-01-01T12:00:00Z:30'' = Inr (Aware 1704110370000000)
   \<and> spec_normalize ''2024-01-01T12:00:00Z:30'' = ''2024-01-01T12:00:00Z:30''
   \<and> demo_fromisoformat (spec_normalize ''2024-01-01T12:00:00Z:30'') = None"
  by (simp add: parse_timestamp_def spec_normalize_def strip_def isspace_def endswith_def
      demo_fromisoformat_def)

section \<open>Witnesses for the order of processing\<close>

lemma demo_comparable: "comparable demo_fromisoformat demo_batch"
  by (simp add: comparable_def demo_instants uniform_def)

theorem chronological_stable_witness:
  "parses demo_fromisoformat (demo_batch ! 0) \<and> parses demo_fromisoformat (demo_batch ! 1)
   \<and> parses demo_fromisoformat (demo_batch ! 2)
   \<and> map (instant demo_fromisoformat) demo_batch
       = [Aware 1704103202000000, Aware 1704103201000000, Aware 1704103201000000]
   \<and> fst (process_messages demo_fromisoformat None demo_batch ''logs/chat_log.jsonl''
        ''gpt-3.5-turbo'' ''Elya the Ranger'' demo_world) = None
   \<and> (\<exists>processed.
        map (take 3) (emitted demo_world (snd (process_messages demo_fromisoformat None demo_batch
          ''logs/chat_log.jsonl'' ''gpt-3.5-turbo'' ''Elya the Ranger'' demo_world)))
          = map input_fields processed
      \<and> sorted_wrt (\<lambda>a b. dt_lt (instant demo_fromisoformat b) (instant demo_fromisoformat a)
            = Inr False) processed
      \<and> (\<forall>k. filter (\<lambda>m. instant demo_fromisoformat m = k) processed
            = filter (\<lambda>m. instant demo_fromisoformat m = k) demo_batch)
      \<and> mset processed = mset demo_batch)
   \<and> map (take 3) (emitted demo_world (snd (process_messages demo_fromisoformat None demo_batch []
        ''gpt-3.5-turbo'' ''Elya the Ranger'' demo_world)))
       = map input_fields [demo_batch ! 1, demo_batch ! 2, demo_batch ! 0]"
proof -
  let ?r = "process_messages demo_fromisoformat None demo_batch ''logs/chat_log.jsonl''
      ''gpt-3.5-turbo'' ''Elya the Ranger'' demo_world"
  from chronological_stable [OF demo_parses, of demo_world None "''logs/chat_log.jsonl''"
        "''gpt-3.5-turbo''" "''Elya the Ranger''"]
  obtain processed where all:
    "map (take 3) (emitted demo_world (snd ?r)) = map input_fields processed
     \<and> sorted_wrt (\<lambda>a b. dt_lt (instant demo_fromisoformat b) (instant demo_fromisoformat a)
        = Inr False) processed
     \<and> (\<forall>k. filter (\<lambda>m. instant demo_fromisoformat m = k) processed
        = (if fst ?r = None
           then filter (\<lambda>m. instant demo_fromisoformat m = k) demo_batch else []))
     \<and> (if fst ?r = None then mset processed = mset demo_batch else processed = [])
     \<and> ((fst ?r = None)
        = (comparable demo_fromisoformat demo_batch
           \<and> \<not> isl (open_log ''logs/chat_log.jsonl'' demo_world)))
     \<and> (\<not> comparable demo_fromisoformat demo_batch \<longrightarrow> fst ?r = Some TypeError)" ..
  note a = all [THEN conjunct1]
    and b = all [THEN conjunct2, THEN conjunct1]
    and c = all [THEN conjunct2, THEN conjunct2, THEN conjunct1]
    and d = all [THEN conjunct2, THEN conjunct2, THEN conjunct2, THEN conjunct1]
    and e = all [THEN conjunct2, THEN conjunct2, THEN conjunct2, THEN conjunct2, THEN conjunct1]
  have none: "fst ?r = None"
    by (simp only: e demo_comparable demo_open_log sum.disc simp_thms)
  from c have c': "\<forall>k. filter (\<lambda>m. instant demo_fromisoformat m = k) processed
        = filter (\<lambda>m. instant demo_fromisoformat m = k) demo_batch"
    by (simp only: none if_True simp_thms)
  from d have d': "mset processed = mset demo_batch"
    by (simp only: none if_True simp_thms)
  from a b c' d' have ex: "\<exists>processed.
        map (take 3) (emitted demo_world (snd ?r)) = map input_fields processed
      \<and> sorted_wrt (\<lambda>a b. dt_lt (instant demo_fromisoformat b) (instant demo_fromisoformat a)
            = Inr False) processed
      \<and> (\<forall>k. filter (\<lambda>m. instant demo_fromisoformat m = k) processed
            = filter (\<lambda>m. instant demo_fromisoformat m = k) demo_batch)
      \<and> mset processed = mset demo_batch"
    by (intro exI conjI)
  have out: "map (take 3) (emitted demo_world (snd (process_messages demo_fromisoformat None
        demo_batch [] ''gpt-3.5-turbo'' ''Elya the Ranger'' demo_world)))
       = map input_fields [demo_batch ! 1, demo_batch ! 2, demo_batch ! 0]"
    by (simp add: emitted_def demo_console)
       (simp add: demo_world_def demo_batch_def input_fields_def)
  have p: "parses demo_fromisoformat (demo_batch ! 0) \<and> parses demo_fromisoformat (demo_batch ! 1)
      \<and> parses demo_fromisoformat (demo_batch ! 2)"
    using demo_parses by (simp add: demo_batch_def)
  from p demo_instants none ex out show ?thesis by (intro conjI) simp_all
qed

lemma demo_talk_before:
  "session (fst (process_loop None [] ''gpt-3.5-turbo'' ''Elya the Ranger'' 0 (take 2 demo_talk)
      (Map.empty, demo_world))) (PInt 1)
   = \<lparr>mood = ''angry'',
      last_messages = [''Where do I find the mill?'', ''You are so stupid and useless'']\<rparr>"
  by (simp add: demo_talk_def demo_world_def process_one_def Let_def new_PlayerState_def
      session_def last3_def update_mood_def generate_reply_def rule_based_reply_def lower_def
      endswith_def INSULT_KEYWORDS_def HELP_KEYWORDS_def)

theorem process_order_witness:
  "2 < length demo_talk
   \<and> mood (session (fst (process_loop None [] ''gpt-3.5-turbo'' ''Elya the Ranger'' 0
        (take 2 demo_talk) (Map.empty, demo_world))) (PInt 1)) = ''angry''
   \<and> map_of (emitted demo_world (snd (process_loop None [] ''gpt-3.5-turbo'' ''Elya the Ranger'' 0
        demo_talk (Map.empty, demo_world))) ! 2) ''npc_mood'' = Some (JStr ''friendly'')
   \<and> map_of (emitted demo_world (snd (process_loop None [] ''gpt-3.5-turbo'' ''Elya the Ranger'' 0
        demo_talk (Map.empty, demo_world))) ! 2) ''npc_reply''
       = Some (JStr ''How can I help you today?'')
   \<and> map_of (emitted demo_world (snd (process_loop None [] ''gpt-3.5-turbo'' ''Elya the Ranger'' 0
        demo_talk (Map.empty, demo_world))) ! 2) ''state_used''
       = Some (JArr [JStr ''Where do I find the mill?'', JStr ''You are so stupid and useless''])
   \<and> last_messages (session (fst (process_loop None [] ''gpt-3.5-turbo'' ''Elya the Ranger'' 0
        (take (Suc 2) demo_talk) (Map.empty, demo_world))) (PInt 1))
       = [''Where do I find the mill?'', ''You are so stupid and useless'', ''Sorry, please help'']"
proof -
  have j: "2 < length demo_talk" by (simp add: demo_talk_def)
  have m: "demo_talk ! 2
      = \<lparr>player_id = PInt 1, msg_text = ''Sorry, please help'', timestamp = ''2024-01-01T10:00:00''\<rparr>"
    by (simp add: demo_talk_def)
  have u: "update_mood ''Sorry, please help'' ''angry'' = (''friendly'', ''help_or_question'')"
    by (simp add: update_mood_def lower_def INSULT_KEYWORDS_def HELP_KEYWORDS_def)
  have r: "rule_based_reply ''friendly'' ''Sorry, please help'' = ''How can I help you today?''"
    by (simp add: rule_based_reply_def lower_def)
  note po = process_order [OF j, of None "[]" "''gpt-3.5-turbo''" "''Elya the Ranger''" demo_world,
      unfolded Let_def m]
  from po j show ?thesis
    by (simp add: demo_talk_before u r generate_reply_def last3_def)
qed

end
